theory Spec2Isabelle
  imports Main
begin

section \<open>Data model of \<^verbatim>\<open>common.py\<close>\<close>

text \<open>
  The configuration is the dictionary that the YAML document loads to. Its entries are
  typed as the reference blocks of the configuration schema type them: strings, lists of
  strings, or a string-or-list alternative. A key that may be missing from a dictionary is
  an \<open>option\<close> field, \<open>None\<close> standing for the missing key, so that every
  \<^verbatim>\<open>block['k']\<close> of the source has its \<^verbatim>\<open>KeyError\<close> branch and every
  \<^verbatim>\<open>block.get('k', default)\<close> its default branch.
\<close>

datatype args_value = ArgsStr string | ArgsList "string list"

datatype url_value = UrlStr string | UrlList "string list"

record postprocess_dict =
  pp_function :: "string option"
  pp_args :: "args_value option"

datatype postprocess_value = PostStr string | PostDict postprocess_dict

record block =
  assembly :: "string option"
  tag :: "string option"
  type :: "string option"
  url :: "url_value option"
  indexes :: "string list option"
  conversions :: "string list option"
  postprocess :: "postprocess_value option"

record config =
  references_dir :: "string option"
  references :: "block list option"

text \<open>
  Exceptions are values. \<open>ValueError\<close> and \<open>KeyError\<close> carry the message, respectively
  the missing key, that the source gives them. The lookup of \<^verbatim>\<open>download_and_postprocess\<close>
  is keyed by the tuple \<^verbatim>\<open>(assembly, tag)\<close>; the two errors about such a tuple carry its
  two components (the source's message embeds the tuple's \<^verbatim>\<open>repr\<close>).
  \<open>TypeError\<close> is raised by a call with the wrong number of arguments.
  \<open>CalledProcessError\<close> is what \<^verbatim>\<open>shell\<close> raises for a command that exits with a
  non-zero status, \<open>Exception\<close> anything raised by a collaborator that is not part of this
  file (name resolution, a postprocessing function).
\<close>

datatype py_error =
    ValueError string
  | ValueErrorKeyExists string string
  | KeyError string
  | KeyErrorTuple string string
  | TypeError string
  | CalledProcessError string
  | Exception string

section \<open>\<^verbatim>\<open>config_to_dict\<close>\<close>

text \<open>
  The suffixes \<^verbatim>\<open>aligners.bowtie2_index_from_prefix('')[0]\<close> and
  \<^verbatim>\<open>aligners.hisat2_index_from_prefix('')[0]\<close> come from the library
  \<^verbatim>\<open>lcdblib\<close>; they are parameters of the model.
\<close>

record aligners =
  bowtie2_index_from_prefix :: string
  hisat2_index_from_prefix :: string

definition index_extensions :: "aligners \<Rightarrow> string \<rightharpoonup> string" where
  "index_extensions al =
     [''bowtie2'' \<mapsto> bowtie2_index_from_prefix al,
      ''hisat2'' \<mapsto> hisat2_index_from_prefix al,
      ''kallisto'' \<mapsto> ''.idx'']"

definition conversion_extensions :: "string \<rightharpoonup> string" where
  "conversion_extensions =
     [''intergenic'' \<mapsto> ''.intergenic.gtf'',
      ''refflat'' \<mapsto> ''.refflat'']"

text \<open>The path table \<^verbatim>\<open>d[assembly][tag][kind]\<close>: three nested dictionaries.\<close>

type_synonym cell = "string \<rightharpoonup> string"
type_synonym path_table = "string \<rightharpoonup> (string \<rightharpoonup> cell)"

text \<open>\<^verbatim>\<open>block.get('tag', 'default')\<close>\<close>

definition fill_tag :: "block \<Rightarrow> string" where
  "fill_tag b = (case tag b of None \<Rightarrow> ''default'' | Some t \<Rightarrow> t)"

text \<open>
  The four format strings of the loop body, with \<^verbatim>\<open>references_dir\<close>, \<^verbatim>\<open>assembly\<close>,
  \<^verbatim>\<open>type_\<close>, \<^verbatim>\<open>tag\<close>, \<^verbatim>\<open>ext\<close> and \<^verbatim>\<open>index\<close> as arguments.
\<close>

definition type_path :: "string \<Rightarrow> string \<Rightarrow> string \<Rightarrow> string \<Rightarrow> string" where
  "type_path rd a ty t = rd @ ''/'' @ a @ ''/'' @ ty @ ''/'' @ a @ ''_'' @ t @ ''.'' @ ty"

definition conversion_path :: "string \<Rightarrow> string \<Rightarrow> string \<Rightarrow> string \<Rightarrow> string \<Rightarrow> string" where
  "conversion_path rd a ty t ext = rd @ ''/'' @ a @ ''/'' @ ty @ ''/'' @ a @ ''_'' @ t @ ext"

definition index_path :: "string \<Rightarrow> string \<Rightarrow> string \<Rightarrow> string \<Rightarrow> string \<Rightarrow> string" where
  "index_path rd a index t ext = rd @ ''/'' @ a @ ''/'' @ index @ ''/'' @ a @ ''_'' @ t @ ext"

definition chromsizes_path :: "string \<Rightarrow> string \<Rightarrow> string \<Rightarrow> string \<Rightarrow> string" where
  "chromsizes_path rd a ty t =
     rd @ ''/'' @ a @ ''/'' @ ty @ ''/'' @ a @ ''_'' @ t @ ''.chromsizes''"

definition tag_exists_message :: "string \<Rightarrow> string \<Rightarrow> string \<Rightarrow> string" where
  "tag_exists_message t ty a =
     ''tag '' @ t @ '' already exists for type '' @ ty @ '' in assembly '' @ a"

text \<open>
  \<^verbatim>\<open>for conversion in conversions: ext = conversion_extensions[conversion]; e[conversion] = ...\<close>
\<close>

fun add_conversions ::
  "string \<Rightarrow> string \<Rightarrow> string \<Rightarrow> string \<Rightarrow> string list \<Rightarrow> cell \<Rightarrow> py_error + cell" where
  "add_conversions rd a ty t [] e = Inr e"
| "add_conversions rd a ty t (conversion # cs) e =
     (case conversion_extensions conversion of
        None \<Rightarrow> Inl (KeyError conversion)
      | Some ext \<Rightarrow>
          add_conversions rd a ty t cs (e(conversion \<mapsto> conversion_path rd a ty t ext)))"

text \<open>
  \<^verbatim>\<open>for index in indexes: ext = index_extensions[index]; e[index] = ...\<close>
\<close>

fun add_indexes ::
  "aligners \<Rightarrow> string \<Rightarrow> string \<Rightarrow> string \<Rightarrow> string list \<Rightarrow> cell \<Rightarrow> py_error + cell" where
  "add_indexes al rd a t [] e = Inr e"
| "add_indexes al rd a t (index # is) e =
     (case index_extensions al index of
        None \<Rightarrow> Inl (KeyError index)
      | Some ext \<Rightarrow> add_indexes al rd a t is (e(index \<mapsto> index_path rd a index t ext)))"

text \<open>
  The part of the loop body after \<^verbatim>\<open>e[type_] = ...\<close>: the block of
  \<^verbatim>\<open>if block['type'] == 'gtf'\<close> and then the block of \<^verbatim>\<open>if block['type'] == 'fasta'\<close>.
\<close>

definition add_derived ::
  "aligners \<Rightarrow> string \<Rightarrow> string \<Rightarrow> string \<Rightarrow> string \<Rightarrow> block \<Rightarrow> cell \<Rightarrow> py_error + cell" where
  "add_derived al rd a ty t b e =
     (case (if ty = ''gtf''
            then add_conversions rd a ty t
                   (case conversions b of None \<Rightarrow> [] | Some cs \<Rightarrow> cs) e
            else Inr e) of
        Inl err \<Rightarrow> Inl err
      | Inr e1 \<Rightarrow>
          if ty = ''fasta''
          then (case add_indexes al rd a t
                       (case indexes b of None \<Rightarrow> [] | Some is \<Rightarrow> is) e1 of
                  Inl err \<Rightarrow> Inl err
                | Inr e2 \<Rightarrow> Inr (e2(''chromsizes'' \<mapsto> chromsizes_path rd a ty t)))
          else Inr e1)"

text \<open>
  One pass of \<^verbatim>\<open>for block in config['references']\<close>. \<open>row\<close> is \<^verbatim>\<open>d[assembly]\<close> after
  \<^verbatim>\<open>if assembly not in d: d[assembly] = {}\<close>, and \<open>e\<close> is \<^verbatim>\<open>d[assembly].get(tag, {})\<close>.
  The table is local to the call and is lost when the loop raises, so the in-place updates
  of \<open>e\<close> are visible only through the final \<^verbatim>\<open>d[assembly][tag] = e\<close>.
\<close>

definition process_block ::
  "aligners \<Rightarrow> string \<Rightarrow> path_table \<Rightarrow> block \<Rightarrow> py_error + path_table" where
  "process_block al rd d b =
     (case assembly b of
        None \<Rightarrow> Inl (KeyError ''assembly'')
      | Some a \<Rightarrow>
          (let t = fill_tag b in
           case type b of
             None \<Rightarrow> Inl (KeyError ''type'')
           | Some ty \<Rightarrow>
               (let row = (case d a of None \<Rightarrow> Map.empty | Some r \<Rightarrow> r);
                    e = (case row t of None \<Rightarrow> Map.empty | Some c \<Rightarrow> c)
                in if e ty \<noteq> None
                   then Inl (ValueError (tag_exists_message t ty a))
                   else (case add_derived al rd a ty t b (e(ty \<mapsto> type_path rd a ty t)) of
                           Inl err \<Rightarrow> Inl err
                         | Inr e' \<Rightarrow> Inr (d(a \<mapsto> row(t \<mapsto> e')))))))"

fun process_blocks ::
  "aligners \<Rightarrow> string \<Rightarrow> block list \<Rightarrow> path_table \<Rightarrow> py_error + path_table" where
  "process_blocks al rd [] d = Inr d"
| "process_blocks al rd (b # bs) d =
     (case process_block al rd d b of
        Inl err \<Rightarrow> Inl err
      | Inr d' \<Rightarrow> process_blocks al rd bs d')"

text \<open>
  \<^verbatim>\<open>config_to_dict(config)\<close> for a configuration that is already a dictionary. The second
  argument is the value of the environment variable \<^verbatim>\<open>REFERENCES_DIR\<close>, \<open>None\<close> when the
  variable is not set: \<^verbatim>\<open>os.environ.get('REFERENCES_DIR', config.get('references_dir', None))\<close>.
\<close>

definition get_references_dir :: "string option \<Rightarrow> config \<Rightarrow> string option" where
  "get_references_dir environ cfg =
     (case environ of Some r \<Rightarrow> Some r | None \<Rightarrow> references_dir cfg)"

definition config_to_dict ::
  "aligners \<Rightarrow> string option \<Rightarrow> config \<Rightarrow> py_error + path_table" where
  "config_to_dict al environ cfg =
     (case get_references_dir environ cfg of
        None \<Rightarrow> Inl (ValueError ''References dir not set'')
      | Some rd \<Rightarrow>
          (case references cfg of
             None \<Rightarrow> Inl (KeyError ''references'')
           | Some blocks \<Rightarrow> process_blocks al rd blocks Map.empty))"

text \<open>Reading the returned table: \<^verbatim>\<open>d[assembly][tag][kind]\<close>.\<close>

definition table_entry :: "path_table \<Rightarrow> string \<Rightarrow> string \<Rightarrow> string \<Rightarrow> string option" where
  "table_entry d a t k =
     (case d a of None \<Rightarrow> None
      | Some row \<Rightarrow> (case row t of None \<Rightarrow> None | Some e \<Rightarrow> e k))"

section \<open>\<^verbatim>\<open>download_and_postprocess\<close>\<close>

text \<open>
  The file system is the set of paths that exist, which is what \<^verbatim>\<open>os.path.exists\<close> reads
  and what the temporary files of a call are added to and removed from. A step that acts
  on it either returns, leaving a file system, or raises, leaving the file system as it
  was when the exception left the step: an exception undoes nothing.
\<close>

type_synonym world = "string set"

datatype run = Returns world | Raises py_error world

text \<open>
  What \<^verbatim>\<open>resolve_name\<close> is handed: the string of the configuration, or the whole
  \<^verbatim>\<open>postprocess\<close> dictionary when \<^verbatim>\<open>post_process.get('function', post_process)\<close> falls back
  to its default.
\<close>

datatype name_value = NameStr string | NameDict postprocess_dict

text \<open>
  A postprocessing function is called as \<^verbatim>\<open>func(tmpfiles, outfile, *args)\<close>. The
  collaborators that are not part of this file are parameters: \<^verbatim>\<open>resolve_name\<close> of
  \<^verbatim>\<open>lcdblib\<close>, and two commands run by \<^verbatim>\<open>shell\<close>:
  \<^verbatim>\<open>wget {url} -O- > {tmpfile} 2> {outfile}.log\<close>, as a function of the url, the temporary
  file and the output file, and \<^verbatim>\<open>rm {i}\<close>, as a function of the path \<open>i\<close>. The source
  pastes the path into the command line as it is, without quotes, so what \<^verbatim>\<open>rm\<close> does
  depends on how the shell reads the path: it removes the file and exits with 0, or it
  exits with another status, and then \<^verbatim>\<open>shell\<close> raises, with the file possibly still
  there (a path with a space, a path that starts with a dash). Nothing is assumed of it
  here; a property that needs \<^verbatim>\<open>rm\<close> to remove its file says so.
\<close>

type_synonym postprocess_fn = "string list \<Rightarrow> string \<Rightarrow> string list \<Rightarrow> world \<Rightarrow> run"

datatype func = DefaultPostprocess | Resolved postprocess_fn

record collaborators =
  resolve_name :: "name_value \<Rightarrow> py_error + postprocess_fn"
  shell_wget :: "string \<Rightarrow> string \<Rightarrow> string \<Rightarrow> world \<Rightarrow> run"
  shell_rm :: "string \<Rightarrow> world \<Rightarrow> run"

text \<open>
  \<^verbatim>\<open>shell("mv {origfn} {newfn}")\<close> on a file system of plain files whose paths have no character that the shell interprets. \<^verbatim>\<open>origfn\<close> is the list of
  temporary files, which \<^verbatim>\<open>shell\<close> formats as its elements separated by spaces: with one
  existing source the file is renamed; with no source, with several sources (the target is
  no directory), with a missing source or with source and target equal, \<^verbatim>\<open>mv\<close> exits with
  an error and \<^verbatim>\<open>shell\<close> raises.
\<close>

definition shell_mv :: "string list \<Rightarrow> string \<Rightarrow> world \<Rightarrow> run" where
  "shell_mv origfn newfn w =
     (case origfn of
        [src] \<Rightarrow>
          if src \<in> w \<and> src \<noteq> newfn then Returns (insert newfn (w - {src}))
          else Raises (CalledProcessError ''mv'') w
      | _ \<Rightarrow> Raises (CalledProcessError ''mv'') w)"

definition default_postprocess :: "string list \<Rightarrow> string \<Rightarrow> world \<Rightarrow> run" where
  "default_postprocess origfn newfn w = shell_mv origfn newfn w"

text \<open>
  \<^verbatim>\<open>cat(tmpfiles, outfile)\<close> of the source, \<^verbatim>\<open>shell('cat {tmpfiles} > {outfile}')\<close>: the
  redirection creates \<^verbatim>\<open>outfile\<close>, then \<^verbatim>\<open>cat\<close> exits with an error when one of its
  inputs does not exist. (The model is used with at least one input; with none, \<^verbatim>\<open>cat\<close>
  would copy its standard input.)
\<close>

definition cat :: "string list \<Rightarrow> string \<Rightarrow> world \<Rightarrow> run" where
  "cat tmpfiles outfile w =
     (if set tmpfiles \<subseteq> w then Returns (insert outfile w)
      else Raises (CalledProcessError ''cat'') (insert outfile w))"

text \<open>
  \<^verbatim>\<open>func(tmpfiles, outfile, *args)\<close>. The default function takes two arguments; the source
  calls it with \<^verbatim>\<open>args = ()\<close> only.
\<close>

fun call_func :: "func \<Rightarrow> string list \<Rightarrow> string \<Rightarrow> string list \<Rightarrow> world \<Rightarrow> run" where
  "call_func DefaultPostprocess tmpfiles outfile [] w = default_postprocess tmpfiles outfile w"
| "call_func DefaultPostprocess tmpfiles outfile (x # xs) w = Raises (TypeError ''default_postprocess'') w"
| "call_func (Resolved f) tmpfiles outfile args w = f tmpfiles outfile args w"

text \<open>
  The lookup keyed by \<^verbatim>\<open>(assembly, tag)\<close>:
  \<^verbatim>\<open>k = (i['assembly'], i.get('tag', 'default')); if k in d: raise ValueError(...); d[k] = i\<close>.
\<close>

fun build_lookup ::
  "block list \<Rightarrow> (string \<times> string \<rightharpoonup> block) \<Rightarrow> py_error + (string \<times> string \<rightharpoonup> block)" where
  "build_lookup [] d = Inr d"
| "build_lookup (i # rest) d =
     (case assembly i of
        None \<Rightarrow> Inl (KeyError ''assembly'')
      | Some a \<Rightarrow>
          (let k = (a, fill_tag i)
           in if d k \<noteq> None then Inl (ValueErrorKeyExists a (fill_tag i))
              else build_lookup rest (d(k \<mapsto> i))))"

text \<open>
  The branches of \<^verbatim>\<open>if isinstance(post_process, dict) ... elif isinstance(post_process, str)\<close>:
  the name that goes to \<^verbatim>\<open>resolve_name\<close> and the extra arguments.
\<close>

definition normalize_args :: "args_value option \<Rightarrow> string list" where
  "normalize_args a =
     (case a of None \<Rightarrow> [] | Some (ArgsStr s) \<Rightarrow> [s] | Some (ArgsList l) \<Rightarrow> l)"

definition normalize_postprocess :: "postprocess_value \<Rightarrow> name_value \<times> string list" where
  "normalize_postprocess post_process =
     (case post_process of
        PostDict m \<Rightarrow>
          ((case pp_function m of None \<Rightarrow> NameDict m | Some f \<Rightarrow> NameStr f),
           normalize_args (pp_args m))
      | PostStr s \<Rightarrow> (NameStr s, []))"

definition select_postprocess ::
  "collaborators \<Rightarrow> block \<Rightarrow> py_error + (func \<times> string list)" where
  "select_postprocess env b =
     (case postprocess b of
        None \<Rightarrow> Inr (DefaultPostprocess, [])
      | Some post_process \<Rightarrow>
          (let (name, args) = normalize_postprocess post_process
           in case resolve_name env name of
                Inl err \<Rightarrow> Inl err
              | Inr f \<Rightarrow> Inr (Resolved f, args)))"

text \<open>\<^verbatim>\<open>str(i)\<close> for the index of a temporary file, in decimal.\<close>

definition digit :: "nat \<Rightarrow> char" where
  "digit n = ''0123456789'' ! n"

function str_nat :: "nat \<Rightarrow> string" where
  "str_nat n = (if n < 10 then [digit n] else str_nat (n div 10) @ [digit (n mod 10)])"
  by pat_completeness auto
termination
  by (relation "measure (\<lambda>n. n)") auto

declare str_nat.simps [simp del]

text \<open>\<^verbatim>\<open>['{0}.{1}.tmp'.format(outfile, i) for i in range(len(urls))]\<close>\<close>

definition tmpfile_name :: "string \<Rightarrow> nat \<Rightarrow> string" where
  "tmpfile_name outfile i = outfile @ ''.'' @ str_nat i @ ''.tmp''"

definition make_tmpfiles :: "string \<Rightarrow> string list \<Rightarrow> string list" where
  "make_tmpfiles outfile urls = map (tmpfile_name outfile) [0..<length urls]"

text \<open>\<^verbatim>\<open>for url, tmpfile in zip(urls, tmpfiles): shell("wget ...")\<close>\<close>

fun fetch_all :: "collaborators \<Rightarrow> string \<Rightarrow> (string \<times> string) list \<Rightarrow> world \<Rightarrow> run" where
  "fetch_all env outfile [] w = Returns w"
| "fetch_all env outfile ((u, tmpfile) # rest) w =
     (case shell_wget env u tmpfile outfile w of
        Raises err w' \<Rightarrow> Raises err w'
      | Returns w' \<Rightarrow> fetch_all env outfile rest w')"

text \<open>
  \<^verbatim>\<open>for i in tmpfiles: if os.path.exists(i): shell('rm {i}')\<close>. An \<^verbatim>\<open>rm\<close> that raises ends
  the loop: the temporary files after it are not looked at.
\<close>

fun cleanup :: "collaborators \<Rightarrow> string list \<Rightarrow> world \<Rightarrow> run" where
  "cleanup env [] w = Returns w"
| "cleanup env (i # rest) w =
     (if i \<in> w
      then (case shell_rm env i w of
              Raises err w' \<Rightarrow> Raises err w'
            | Returns w' \<Rightarrow> cleanup env rest w')
      else cleanup env rest w)"

text \<open>
  Lines 109 to 123: the urls as a list (\<^verbatim>\<open>if isinstance(urls, str): urls = [urls]\<close>), the temporary files, the downloads, the call of
  \<^verbatim>\<open>func\<close> and, after it has returned, the removal of the temporary files. There is no
  \<^verbatim>\<open>try\<close> around the call: an exception of \<^verbatim>\<open>func\<close> leaves the function at once.
\<close>

definition url_list :: "url_value \<Rightarrow> string list" where
  "url_list u = (case u of UrlStr s \<Rightarrow> [s] | UrlList l \<Rightarrow> l)"

definition download_and_call ::
  "collaborators \<Rightarrow> string \<Rightarrow> func \<Rightarrow> string list \<Rightarrow> url_value \<Rightarrow> world \<Rightarrow> run" where
  "download_and_call env outfile f args u w =
     (let urls = url_list u;
          tmpfiles = make_tmpfiles outfile urls
      in case fetch_all env outfile (zip urls tmpfiles) w of
           Raises err w1 \<Rightarrow> Raises err w1
         | Returns w1 \<Rightarrow>
             (case call_func f tmpfiles outfile args w1 of
                Raises err w2 \<Rightarrow> Raises err w2
              | Returns w2 \<Rightarrow> cleanup env tmpfiles w2))"

text \<open>
  \<^verbatim>\<open>download_and_postprocess(outfile, config, assembly, tag)\<close> started on the file system
  \<open>w\<close>. \<^verbatim>\<open>os.path.relpath(outfile, config['references_dir'])\<close> has no use in the function but
  can raise: \<^verbatim>\<open>KeyError\<close> when the configuration has no \<^verbatim>\<open>references_dir\<close>, \<^verbatim>\<open>ValueError\<close>
  when \<^verbatim>\<open>outfile\<close> is the empty string.
\<close>

definition download_and_postprocess ::
  "collaborators \<Rightarrow> string \<Rightarrow> config \<Rightarrow> string \<Rightarrow> string \<Rightarrow> world \<Rightarrow> run" where
  "download_and_postprocess env outfile cfg a t w =
     (case references cfg of
        None \<Rightarrow> Raises (KeyError ''references'') w
      | Some blocks \<Rightarrow>
          (case build_lookup blocks Map.empty of
             Inl err \<Rightarrow> Raises err w
           | Inr d \<Rightarrow>
               (case references_dir cfg of
                  None \<Rightarrow> Raises (KeyError ''references_dir'') w
                | Some rd \<Rightarrow>
                    if outfile = [] then Raises (ValueError ''no path specified'') w
                    else (case d (a, t) of
                            None \<Rightarrow> Raises (KeyErrorTuple a t) w
                          | Some b \<Rightarrow>
                              (case select_postprocess env b of
                                 Inl err \<Rightarrow> Raises err w
                               | Inr (f, args) \<Rightarrow>
                                   (case url b of
                                      None \<Rightarrow> Raises (KeyError ''url'') w
                                    | Some u \<Rightarrow> download_and_call env outfile f args u w))))))"

section \<open>Reading a configuration without running the loop\<close>

text \<open>
  The keys that one pass of the loop of \<^verbatim>\<open>config_to_dict\<close> writes into the dictionary \<open>e\<close>
  of its block: the block's type, the conversions of a \<^verbatim>\<open>gtf\<close> block, the indexes of a
  \<^verbatim>\<open>fasta\<close> block followed by \<^verbatim>\<open>chromsizes\<close>.
\<close>

definition block_kinds :: "block \<Rightarrow> string list" where
  "block_kinds b =
     (case type b of
        None \<Rightarrow> []
      | Some ty \<Rightarrow>
          ty # (if ty = ''gtf'' then (case conversions b of None \<Rightarrow> [] | Some cs \<Rightarrow> cs) else [])
             @ (if ty = ''fasta''
                then (case indexes b of None \<Rightarrow> [] | Some is \<Rightarrow> is) @ [''chromsizes'']
                else []))"

text \<open>
  A block that the loop body gets through when its type is not yet a key of \<open>e\<close>: it has
  the two keys the body reads with \<^verbatim>\<open>block[...]\<close>, and the kinds it asks for are keys of
  the extension tables.
\<close>

definition block_ok :: "aligners \<Rightarrow> block \<Rightarrow> bool" where
  "block_ok al b =
     (assembly b \<noteq> None \<and> type b \<noteq> None
      \<and> (type b = Some ''gtf'' \<longrightarrow>
            list_all (\<lambda>c. conversion_extensions c \<noteq> None)
              (case conversions b of None \<Rightarrow> [] | Some cs \<Rightarrow> cs))
      \<and> (type b = Some ''fasta'' \<longrightarrow>
            list_all (\<lambda>i. index_extensions al i \<noteq> None)
              (case indexes b of None \<Rightarrow> [] | Some is \<Rightarrow> is)))"

text \<open>
  A later block \<open>q\<close> meets \<^verbatim>\<open>if type_ in e\<close> because of an earlier block \<open>p\<close>: both
  have the same assembly and tag, and the type of \<open>q\<close> is one of the keys written for
  \<open>p\<close>.
\<close>

definition clash :: "block \<Rightarrow> block \<Rightarrow> bool" where
  "clash p q =
     (assembly p = assembly q \<and> fill_tag p = fill_tag q
      \<and> (case type q of None \<Rightarrow> False | Some ty \<Rightarrow> ty \<in> set (block_kinds p)))"

definition entry_free :: "path_table \<Rightarrow> block \<Rightarrow> bool" where
  "entry_free d b =
     (case assembly b of
        None \<Rightarrow> True
      | Some a \<Rightarrow>
          (case type b of None \<Rightarrow> True | Some ty \<Rightarrow> table_entry d a (fill_tag b) ty = None))"

text \<open>The key of a block in the lookup of \<^verbatim>\<open>download_and_postprocess\<close>.\<close>

definition lookup_key :: "block \<Rightarrow> string option \<times> string" where
  "lookup_key b = (assembly b, fill_tag b)"

text \<open>
  The configurations that \<^verbatim>\<open>config_to_dict\<close> goes through without an error: a references
  directory, a references list, every block gets through the loop body, and no block finds
  its type among the keys written for an earlier block of its cell.
\<close>

definition accepted :: "aligners \<Rightarrow> string option \<Rightarrow> config \<Rightarrow> bool" where
  "accepted al environ cfg =
     (get_references_dir environ cfg \<noteq> None
      \<and> (case references cfg of
            None \<Rightarrow> False
          | Some blocks \<Rightarrow>
              list_all (block_ok al) blocks \<and> sorted_wrt (\<lambda>p q. \<not> clash p q) blocks))"

text \<open>
  The block without the fields that the loop body does not read: \<^verbatim>\<open>conversions\<close> is read
  for a \<^verbatim>\<open>gtf\<close> block only, \<^verbatim>\<open>indexes\<close> for a \<^verbatim>\<open>fasta\<close> block only.
\<close>

definition drop_unused :: "block \<Rightarrow> block" where
  "drop_unused b =
     b\<lparr>conversions := (if type b = Some ''gtf'' then conversions b else None),
       indexes := (if type b = Some ''fasta'' then indexes b else None)\<rparr>"

section \<open>Concrete inputs\<close>

text \<open>The suffixes that the doctest of \<^verbatim>\<open>config_to_dict\<close> shows.\<close>

definition doctest_aligners :: aligners where
  "doctest_aligners =
     \<lparr>bowtie2_index_from_prefix = ''.1.bt2'', hisat2_index_from_prefix = ''.1.ht2''\<rparr>"

text \<open>A block with the two required keys of \<^verbatim>\<open>config_to_dict\<close> and nothing else.\<close>

definition plain_block :: "string \<Rightarrow> string \<Rightarrow> block" where
  "plain_block a ty =
     \<lparr>assembly = Some a, tag = None, type = Some ty, url = None, indexes = None,
      conversions = None, postprocess = None\<rparr>"

definition example_block :: block where
  "example_block = (plain_block ''dm6'' ''fasta'')
     \<lparr>tag := Some ''r6-11'', indexes := Some [''bowtie2'']\<rparr>"

definition example_config :: config where
  "example_config = \<lparr>references_dir = Some ''/data'', references = Some [example_block]\<rparr>"

definition duplicate_blocks :: "block list" where
  "duplicate_blocks =
     [plain_block ''dm6'' ''fasta'', plain_block ''dm6'' ''gtf'', plain_block ''dm6'' ''fasta'']"

definition duplicate_config :: config where
  "duplicate_config = \<lparr>references_dir = Some ''/data'', references = Some duplicate_blocks\<rparr>"

definition unknown_index_blocks :: "block list" where
  "unknown_index_blocks =
     [plain_block ''dm6'' ''gtf'',
      (plain_block ''dm6'' ''fasta'')
        \<lparr>tag := Some ''r6'', indexes := Some [''bowtie2'', ''star'', ''bwa'']\<rparr>]"

definition unknown_index_config :: config where
  "unknown_index_config =
     \<lparr>references_dir = Some ''/data'', references = Some unknown_index_blocks\<rparr>"

definition unused_fields_config :: config where
  "unused_fields_config =
     \<lparr>references_dir = Some ''/data'',
      references = Some
        [(plain_block ''dm6'' ''gtf'')\<lparr>indexes := Some [''star'']\<rparr>,
         (plain_block ''hg38'' ''fasta'')\<lparr>conversions := Some [''bed12'']\<rparr>,
         (plain_block ''hg38'' ''rRNA'')
           \<lparr>tag := Some ''v2'', indexes := Some [''star''], conversions := Some [''bed12'']\<rparr>]\<rparr>"

text \<open>
  Collaborators for concrete runs: a registry that knows \<^verbatim>\<open>cat\<close> of the source under one
  dotted name (a call with extra arguments is a \<^verbatim>\<open>TypeError\<close>, as \<^verbatim>\<open>cat\<close> takes two),
  fails to import any other name and cannot split a dictionary into a dotted path; a
  \<^verbatim>\<open>wget\<close> that always succeeds, leaving the temporary file and the log file; and an
  \<^verbatim>\<open>rm\<close> that removes an existing path that the shell reads as one word that is no option,
  and for any other path exits with an error and removes nothing (what \<^verbatim>\<open>rm my out.0.tmp\<close>
  does when neither \<^verbatim>\<open>my\<close> nor \<^verbatim>\<open>out.0.tmp\<close> exists, and \<^verbatim>\<open>rm -x.0.tmp\<close> always).
\<close>

definition shell_word :: "string \<Rightarrow> bool" where
  "shell_word p =
     (case p of
        [] \<Rightarrow> False
      | c # cs \<Rightarrow>
          c \<noteq> CHR ''-''
          \<and> list_all (\<lambda>x. x \<notin> set '' $&()*;<>?[]{}|~#!'' \<and> x \<notin> {CHR 0x09, CHR 0x0A, CHR 0x22,
                                  CHR 0x27, CHR 0x5C, CHR 0x60}) p)"

definition example_rm :: "string \<Rightarrow> world \<Rightarrow> run" where
  "example_rm i w =
     (if shell_word i \<and> i \<in> w then Returns (w - {i})
      else Raises (CalledProcessError ''rm'') w)"

definition cat_fn :: postprocess_fn where
  "cat_fn tmpfiles outfile args w =
     (if args = [] then cat tmpfiles outfile w else Raises (TypeError ''cat'') w)"

definition example_resolve_name :: "name_value \<Rightarrow> py_error + postprocess_fn" where
  "example_resolve_name n =
     (case n of
        NameStr s \<Rightarrow> if s = ''lib.common.cat'' then Inr cat_fn else Inl (Exception ''ImportError'')
      | NameDict m \<Rightarrow> Inl (Exception ''AttributeError''))"

definition example_wget :: "string \<Rightarrow> string \<Rightarrow> string \<Rightarrow> world \<Rightarrow> run" where
  "example_wget u tmpfile outfile w = Returns (insert tmpfile (insert (outfile @ ''.log'') w))"

definition example_collaborators :: collaborators where
  "example_collaborators =
     \<lparr>resolve_name = example_resolve_name, shell_wget = example_wget, shell_rm = example_rm\<rparr>"

definition download_block :: "url_value \<Rightarrow> postprocess_value option \<Rightarrow> block" where
  "download_block u pp = (plain_block ''dm6'' ''fasta'')\<lparr>url := Some u, postprocess := pp\<rparr>"

definition download_config :: "url_value \<Rightarrow> postprocess_value option \<Rightarrow> config" where
  "download_config u pp =
     \<lparr>references_dir = Some ''/data'', references = Some [download_block u pp]\<rparr>"

definition cat_with_argument :: postprocess_value where
  "cat_with_argument = PostDict \<lparr>pp_function = Some ''lib.common.cat'', pp_args = Some (ArgsStr ''x'')\<rparr>"

definition two_urls :: url_value where
  "two_urls = UrlList [''http://host/a.fa.gz'', ''http://host/b.fa.gz'']"

definition shared_tag_blocks :: "block list" where
  "shared_tag_blocks = [plain_block ''dm6'' ''fasta'', plain_block ''dm6'' ''gtf'']"

definition shared_tag_config :: config where
  "shared_tag_config = \<lparr>references_dir = Some ''/data'', references = Some shared_tag_blocks\<rparr>"

definition chromsizes_type_blocks :: "block list" where
  "chromsizes_type_blocks = [plain_block ''dm6'' ''fasta'', plain_block ''dm6'' ''chromsizes'']"

definition chromsizes_type_config :: config where
  "chromsizes_type_config =
     \<lparr>references_dir = Some ''/data'', references = Some chromsizes_type_blocks\<rparr>"

section \<open>Properties\<close>

lemmas config_to_dict_unfold =
  config_to_dict_def get_references_dir_def process_block_def fill_tag_def add_derived_def
  index_extensions_def conversion_extensions_def table_entry_def type_path_def
  chromsizes_path_def index_path_def conversion_path_def tag_exists_message_def Let_def

lemmas download_unfold =
  download_and_postprocess_def download_and_call_def download_config_def download_block_def
  plain_block_def fill_tag_def select_postprocess_def normalize_postprocess_def
  normalize_args_def example_collaborators_def example_resolve_name_def example_wget_def
  url_list_def make_tmpfiles_def tmpfile_name_def str_nat.simps digit_def cat_fn_def cat_def
  cat_with_argument_def two_urls_def Let_def upt_conv_Cons insert_Diff_if shell_mv_def
  default_postprocess_def example_rm_def shell_word_def

subsection \<open>The loop of \<^verbatim>\<open>config_to_dict\<close>\<close>

lemma add_conversions_Inr:
  "add_conversions rd a ty t cs e = Inr e' \<Longrightarrow>
     list_all (\<lambda>c. conversion_extensions c \<noteq> None) cs \<and> dom e' = dom e \<union> set cs
     \<and> (\<forall>k. k \<notin> set cs \<longrightarrow> e' k = e k)"
  by (induction cs arbitrary: e) (auto split: option.splits)

lemma add_conversions_ok:
  "list_all (\<lambda>c. conversion_extensions c \<noteq> None) cs \<Longrightarrow> \<exists>e'. add_conversions rd a ty t cs e = Inr e'"
  by (induction cs arbitrary: e) (auto split: option.splits)

lemma add_conversions_find:
  "find (\<lambda>c. conversion_extensions c = None) cs = Some k \<Longrightarrow>
     add_conversions rd a ty t cs e = Inl (KeyError k)"
  by (induction cs arbitrary: e) (auto split: option.splits if_splits)

lemma add_indexes_Inr:
  "add_indexes al rd a t is e = Inr e' \<Longrightarrow>
     list_all (\<lambda>i. index_extensions al i \<noteq> None) is \<and> dom e' = dom e \<union> set is
     \<and> (\<forall>k. k \<notin> set is \<longrightarrow> e' k = e k)"
  by (induction "is" arbitrary: e) (auto split: option.splits)

lemma add_indexes_ok:
  "list_all (\<lambda>i. index_extensions al i \<noteq> None) is \<Longrightarrow> \<exists>e'. add_indexes al rd a t is e = Inr e'"
  by (induction "is" arbitrary: e) (auto split: option.splits)

lemma add_indexes_find:
  "find (\<lambda>i. index_extensions al i = None) is = Some k \<Longrightarrow>
     add_indexes al rd a t is e = Inl (KeyError k)"
  by (induction "is" arbitrary: e) (auto split: option.splits if_splits)

lemma add_derived_Inr:
  assumes "add_derived al rd a ty t b e = Inr e'" "type b = Some ty"
  shows "dom e' = dom e \<union> set (tl (block_kinds b))
    \<and> (ty = ''gtf'' \<longrightarrow>
            list_all (\<lambda>c. conversion_extensions c \<noteq> None)
              (case conversions b of None \<Rightarrow> [] | Some cs \<Rightarrow> cs))
    \<and> (ty = ''fasta'' \<longrightarrow>
            list_all (\<lambda>i. index_extensions al i \<noteq> None)
              (case indexes b of None \<Rightarrow> [] | Some is \<Rightarrow> is))"
proof -
  consider (gtf) "ty = ''gtf''" | (fasta) "ty = ''fasta''" | (other) "ty \<noteq> ''gtf''" "ty \<noteq> ''fasta''"
    by blast
  then show ?thesis
  proof cases
    case gtf
    with assms have "add_conversions rd a ty t (case conversions b of None \<Rightarrow> [] | Some cs \<Rightarrow> cs) e = Inr e'"
      by (simp add: add_derived_def split: sum.splits)
    from add_conversions_Inr [OF this] gtf assms(2) show ?thesis
      by (simp add: block_kinds_def)
  next
    case fasta
    with assms obtain e2 where
      e2: "add_indexes al rd a t (case indexes b of None \<Rightarrow> [] | Some is \<Rightarrow> is) e = Inr e2"
      and e': "e' = e2(''chromsizes'' \<mapsto> chromsizes_path rd a ty t)"
      by (auto simp: add_derived_def split: sum.splits)
    from add_indexes_Inr [OF e2] fasta assms(2) e' show ?thesis
      by (auto simp: block_kinds_def)
  next
    case other
    with assms show ?thesis
      by (simp add: add_derived_def block_kinds_def)
  qed
qed

lemma block_kinds_Cons:
  "type b = Some ty \<Longrightarrow> block_kinds b = ty # tl (block_kinds b)"
  unfolding block_kinds_def by (cases "ty = ''gtf''") simp_all

lemma type_in_block_kinds:
  "type b = Some ty \<Longrightarrow> ty \<in> set (block_kinds b)"
  using block_kinds_Cons [of b ty] by (metis list.set_intros(1))

lemma table_entry_upd:
  "table_entry (d(a \<mapsto> (case d a of None \<Rightarrow> Map.empty | Some r \<Rightarrow> r)(t \<mapsto> e'))) a' t' k
     = (if a' = a \<and> t' = t then e' k else table_entry d a' t' k)"
  by (auto simp: table_entry_def split: option.splits)

lemma process_block_Inr:
  assumes "process_block al rd d b = Inr d'"
  shows "\<exists>a ty. assembly b = Some a \<and> type b = Some ty
           \<and> table_entry d a (fill_tag b) ty = None \<and> block_ok al b
           \<and> (\<forall>a' t' k. (table_entry d' a' t' k \<noteq> None) =
                 (table_entry d a' t' k \<noteq> None
                  \<or> (a' = a \<and> t' = fill_tag b \<and> k \<in> set (block_kinds b))))"
proof -
  from assms obtain a where a: "assembly b = Some a"
    by (cases "assembly b") (simp_all add: process_block_def)
  from assms a obtain ty where ty: "type b = Some ty"
    by (cases "type b") (simp_all add: process_block_def)
  define row where "row = (case d a of None \<Rightarrow> Map.empty | Some r \<Rightarrow> r)"
  define e where "e = (case row (fill_tag b) of None \<Rightarrow> Map.empty | Some c \<Rightarrow> c)"
  have e_entry: "e k = table_entry d a (fill_tag b) k" for k
    by (simp add: e_def row_def table_entry_def split: option.splits)
  have unfolded: "process_block al rd d b =
      (if e ty \<noteq> None then Inl (ValueError (tag_exists_message (fill_tag b) ty a))
       else (case add_derived al rd a ty (fill_tag b) b (e(ty \<mapsto> type_path rd a ty (fill_tag b))) of
               Inl err \<Rightarrow> Inl err
             | Inr e' \<Rightarrow> Inr (d(a \<mapsto> row(fill_tag b \<mapsto> e')))))"
    using a ty unfolding e_def row_def by (simp add: process_block_def Let_def)
  from assms have free: "e ty = None"
    unfolding unfolded by (simp split: if_splits)
  from assms free obtain e' where
    e': "add_derived al rd a ty (fill_tag b) b (e(ty \<mapsto> type_path rd a ty (fill_tag b))) = Inr e'"
    and d': "d' = d(a \<mapsto> row(fill_tag b \<mapsto> e'))"
    unfolding unfolded by (auto split: sum.splits)
  note der = add_derived_Inr [OF e' ty]
  have kinds: "set (block_kinds b) = insert ty (set (tl (block_kinds b)))"
    unfolding block_kinds_def using ty by (cases "ty = ''gtf''") simp_all
  have dom: "dom e' = dom e \<union> set (block_kinds b)"
    using der kinds by auto
  have ok: "block_ok al b"
    using der a ty by (simp add: block_ok_def)
  have "(table_entry d' a' t' k \<noteq> None) =
          (table_entry d a' t' k \<noteq> None \<or> (a' = a \<and> t' = fill_tag b \<and> k \<in> set (block_kinds b)))"
    for a' t' k
  proof (cases "a' = a \<and> t' = fill_tag b")
    case True
    then have "table_entry d' a' t' k = e' k"
      unfolding d' row_def by (simp add: table_entry_upd)
    moreover have "(e' k \<noteq> None) = (e k \<noteq> None \<or> k \<in> set (block_kinds b))"
      using dom by (auto simp: dom_def)
    ultimately show ?thesis using True by (simp add: e_entry)
  next
    case False
    then have "table_entry d' a' t' k = table_entry d a' t' k"
      unfolding d' row_def by (auto simp: table_entry_upd)
    with False show ?thesis by auto
  qed
  with a ty free ok show ?thesis by (auto simp: e_entry)
qed

lemma process_block_ok:
  assumes "assembly b = Some a" "type b = Some ty" "table_entry d a (fill_tag b) ty = None"
    "block_ok al b"
  shows "\<exists>d'. process_block al rd d b = Inr d'"
proof -
  define row where "row = (case d a of None \<Rightarrow> Map.empty | Some r \<Rightarrow> r)"
  define e where "e = (case row (fill_tag b) of None \<Rightarrow> Map.empty | Some c \<Rightarrow> c)"
  have e_entry: "e k = table_entry d a (fill_tag b) k" for k
    by (simp add: e_def row_def table_entry_def split: option.splits)
  have "\<exists>e'. add_derived al rd a ty (fill_tag b) b e0 = Inr e'" for e0
  proof -
    consider (gtf) "ty = ''gtf''" | (fasta) "ty = ''fasta''" | (other) "ty \<noteq> ''gtf''" "ty \<noteq> ''fasta''"
      by blast
    then show ?thesis
    proof cases
      case gtf
      with assms(2,4) add_conversions_ok [of "case conversions b of None \<Rightarrow> [] | Some cs \<Rightarrow> cs" rd a ty "fill_tag b" e0]
      show ?thesis by (auto simp: add_derived_def block_ok_def)
    next
      case fasta
      with assms(2,4) add_indexes_ok [of al "case indexes b of None \<Rightarrow> [] | Some is \<Rightarrow> is" rd a "fill_tag b" e0]
      show ?thesis by (auto simp: add_derived_def block_ok_def)
    next
      case other
      then show ?thesis by (simp add: add_derived_def)
    qed
  qed
  then obtain e' where
    "add_derived al rd a ty (fill_tag b) b (e(ty \<mapsto> type_path rd a ty (fill_tag b))) = Inr e'"
    by blast
  with assms e_entry [of ty] show ?thesis
    by (simp add: process_block_def Let_def row_def [symmetric] e_def [symmetric])
qed

lemma process_block_dup:
  assumes "assembly b = Some a" "type b = Some ty" "table_entry d a (fill_tag b) ty \<noteq> None"
  shows "process_block al rd d b = Inl (ValueError (tag_exists_message (fill_tag b) ty a))"
  using assms by (auto simp: process_block_def Let_def table_entry_def split: option.splits)

lemma process_blocks_append:
  "process_blocks al rd (xs @ ys) d =
     (case process_blocks al rd xs d of
        Inl err \<Rightarrow> Inl err
      | Inr d' \<Rightarrow> process_blocks al rd ys d')"
  by (induction xs arbitrary: d) (auto split: sum.splits)

lemma process_blocks_keeps:
  "process_blocks al rd bs d = Inr d' \<Longrightarrow> table_entry d a t k \<noteq> None \<Longrightarrow>
     table_entry d' a t k \<noteq> None"
proof (induction bs arbitrary: d)
  case Nil
  then show ?case by simp
next
  case (Cons b bs)
  from Cons.prems(1) obtain d1 where
    d1: "process_block al rd d b = Inr d1" and rest: "process_blocks al rd bs d1 = Inr d'"
    by (auto split: sum.splits)
  from process_block_Inr [OF d1] Cons.prems(2) have "table_entry d1 a t k \<noteq> None"
    by blast
  with Cons.IH [OF rest] show ?case .
qed

lemma process_blocks_enters:
  "process_blocks al rd bs d = Inr d' \<Longrightarrow> b \<in> set bs \<Longrightarrow> assembly b = Some a \<Longrightarrow>
     type b = Some ty \<Longrightarrow> table_entry d' a (fill_tag b) ty \<noteq> None"
proof (induction bs arbitrary: d)
  case Nil
  then show ?case by simp
next
  case (Cons x bs)
  from Cons.prems(1) obtain d1 where
    d1: "process_block al rd d x = Inr d1" and rest: "process_blocks al rd bs d1 = Inr d'"
    by (auto split: sum.splits)
  show ?case
  proof (cases "b = x")
    case True
    have "ty \<in> set (block_kinds b)"
      using Cons.prems(4) by (rule type_in_block_kinds)
    with process_block_Inr [OF d1] True Cons.prems(3,4)
    have "table_entry d1 a (fill_tag b) ty \<noteq> None"
      by auto
    with process_blocks_keeps [OF rest] show ?thesis .
  next
    case False
    with Cons.prems(2) have "b \<in> set bs" by simp
    from Cons.IH [OF rest this Cons.prems(3,4)] show ?thesis .
  qed
qed

lemma process_blocks_enters_kind:
  "process_blocks al rd bs d = Inr d' \<Longrightarrow> b \<in> set bs \<Longrightarrow> assembly b = Some a \<Longrightarrow>
     k \<in> set (block_kinds b) \<Longrightarrow> table_entry d' a (fill_tag b) k \<noteq> None"
proof (induction bs arbitrary: d)
  case Nil
  then show ?case by simp
next
  case (Cons x bs)
  from Cons.prems(1) obtain d1 where
    d1: "process_block al rd d x = Inr d1" and rest: "process_blocks al rd bs d1 = Inr d'"
    by (auto split: sum.splits)
  show ?case
  proof (cases "b = x")
    case True
    with process_block_Inr [OF d1] Cons.prems(3,4)
    have "table_entry d1 a (fill_tag b) k \<noteq> None"
      by auto
    with process_blocks_keeps [OF rest] show ?thesis .
  next
    case False
    with Cons.prems(2) have "b \<in> set bs" by simp
    from Cons.IH [OF rest this Cons.prems(3,4)] show ?thesis .
  qed
qed

lemma process_blocks_Inr_iff:
  "(\<exists>d'. process_blocks al rd bs d = Inr d') =
     (list_all (block_ok al) bs \<and> (\<forall>b\<in>set bs. entry_free d b)
      \<and> sorted_wrt (\<lambda>p q. \<not> clash p q) bs)"
proof (induction bs arbitrary: d)
  case Nil
  then show ?case by simp
next
  case (Cons b bs)
  have step: "entry_free d1 q = (entry_free d q \<and> \<not> clash b q)"
    if d1: "process_block al rd d b = Inr d1" and q: "block_ok al q" for d1 q
  proof -
    from q obtain a' ty' where q': "assembly q = Some a'" "type q = Some ty'"
      by (auto simp: block_ok_def)
    from process_block_Inr [OF d1] obtain a ty where
      b: "assembly b = Some a" "type b = Some ty"
      and ent: "\<And>a' t' k. (table_entry d1 a' t' k \<noteq> None) =
                 (table_entry d a' t' k \<noteq> None
                  \<or> (a' = a \<and> t' = fill_tag b \<and> k \<in> set (block_kinds b)))"
      by blast
    have free1: "entry_free d1 q = (table_entry d1 a' (fill_tag q) ty' = None)"
      and free0: "entry_free d q = (table_entry d a' (fill_tag q) ty' = None)"
      using q' by (simp_all add: entry_free_def)
    have cl: "clash b q = (a' = a \<and> fill_tag q = fill_tag b \<and> ty' \<in> set (block_kinds b))"
      using q' b by (auto simp: clash_def)
    from ent [of a' "fill_tag q" ty'] show ?thesis
      unfolding free1 free0 cl by blast
  qed
  show ?case
  proof
    assume "\<exists>d'. process_blocks al rd (b # bs) d = Inr d'"
    then obtain d1 d' where
      d1: "process_block al rd d b = Inr d1" and rest: "process_blocks al rd bs d1 = Inr d'"
      by (auto split: sum.splits)
    from rest Cons.IH [of d1] have
      ih: "list_all (block_ok al) bs" "\<forall>q\<in>set bs. entry_free d1 q"
          "sorted_wrt (\<lambda>p q. \<not> clash p q) bs"
      by blast+
    from process_block_Inr [OF d1] have b: "block_ok al b" "entry_free d b"
      by (auto simp: entry_free_def)
    from ih(1,2) step [OF d1] have "\<forall>q\<in>set bs. entry_free d q \<and> \<not> clash b q"
      by (auto simp: list_all_iff)
    with ih b show "list_all (block_ok al) (b # bs) \<and> (\<forall>b\<in>set (b # bs). entry_free d b)
      \<and> sorted_wrt (\<lambda>p q. \<not> clash p q) (b # bs)"
      by auto
  next
    assume r: "list_all (block_ok al) (b # bs) \<and> (\<forall>b\<in>set (b # bs). entry_free d b)
      \<and> sorted_wrt (\<lambda>p q. \<not> clash p q) (b # bs)"
    then obtain a ty where b: "assembly b = Some a" "type b = Some ty"
      by (auto simp: block_ok_def)
    with r have "table_entry d a (fill_tag b) ty = None"
      by (auto simp: entry_free_def)
    from process_block_ok [OF b this, of al rd] r obtain d1 where
      d1: "process_block al rd d b = Inr d1"
      by auto
    from r step [OF d1] have "\<forall>q\<in>set bs. entry_free d1 q"
      by (auto simp: list_all_iff)
    with r Cons.IH [of d1] obtain d' where "process_blocks al rd bs d1 = Inr d'"
      by auto
    with d1 show "\<exists>d'. process_blocks al rd (b # bs) d = Inr d'"
      by simp
  qed
qed

lemma config_to_dict_accepted:
  "(\<exists>d. config_to_dict al environ cfg = Inr d) = accepted al environ cfg"
proof (cases "get_references_dir environ cfg")
  case None
  then show ?thesis by (simp add: config_to_dict_def accepted_def)
next
  case (Some rd)
  show ?thesis
  proof (cases "references cfg")
    case None
    with Some show ?thesis by (simp add: config_to_dict_def accepted_def)
  next
    case (Some blocks)
    have "\<forall>b\<in>set blocks. entry_free Map.empty b"
      by (simp add: entry_free_def table_entry_def split: option.splits)
    with process_blocks_Inr_iff [of al rd blocks Map.empty] Some \<open>get_references_dir environ cfg = Some rd\<close>
    show ?thesis by (simp add: config_to_dict_def accepted_def)
  qed
qed

lemma get_references_dir_references [simp]:
  "get_references_dir environ (cfg\<lparr>references := r\<rparr>) = get_references_dir environ cfg"
  by (cases environ) (simp_all add: get_references_dir_def)

lemma take_nth_drop_blocks:
  "j < length blocks \<Longrightarrow> blocks = take j blocks @ blocks ! j # drop (Suc j) blocks"
  by (simp add: id_take_nth_drop)

lemma process_blocks_at:
  assumes "j < length blocks" "process_blocks al rd (take j blocks) d0 = Inr d"
    "process_block al rd d (blocks ! j) = Inl err"
  shows "process_blocks al rd blocks d0 = Inl err"
proof -
  have "process_blocks al rd (take j blocks @ blocks ! j # drop (Suc j) blocks) d0 = Inl err"
    unfolding process_blocks_append using assms(2,3) by simp
  with take_nth_drop_blocks [OF assms(1)] show ?thesis by simp
qed

lemma process_blocks_prefix_error:
  assumes "process_blocks al rd (take j blocks) d0 = Inl err"
  shows "process_blocks al rd blocks d0 = Inl err"
proof -
  have "process_blocks al rd (take j blocks @ drop j blocks) d0 = Inl err"
    unfolding process_blocks_append using assms by simp
  then show ?thesis by simp
qed

lemma chromsizes_not_conversion: "conversion_extensions ''chromsizes'' = None"
  by (simp add: conversion_extensions_def)

lemma add_derived_chromsizes:
  assumes "add_derived al rd a ty t b e = Inr e'"
  shows "e' ''chromsizes'' =
     (if ty = ''fasta'' then Some (chromsizes_path rd a ty t) else e ''chromsizes'')"
proof -
  consider (gtf) "ty = ''gtf''" | (fasta) "ty = ''fasta''" | (other) "ty \<noteq> ''gtf''" "ty \<noteq> ''fasta''"
    by blast
  then show ?thesis
  proof cases
    case gtf
    with assms have r: "add_conversions rd a ty t (case conversions b of None \<Rightarrow> [] | Some cs \<Rightarrow> cs) e = Inr e'"
      by (simp add: add_derived_def split: sum.splits)
    from add_conversions_Inr [OF r] chromsizes_not_conversion
    have "''chromsizes'' \<notin> set (case conversions b of None \<Rightarrow> [] | Some cs \<Rightarrow> cs)"
      by (auto simp: list_all_iff)
    with add_conversions_Inr [OF r] gtf show ?thesis by simp
  next
    case fasta
    with assms show ?thesis
      by (auto simp: add_derived_def split: sum.splits)
  next
    case other
    with assms show ?thesis
      by (simp add: add_derived_def)
  qed
qed

lemma process_block_chromsizes:
  assumes "process_block al rd d b = Inr d'"
  shows "(assembly b = Some a \<and> type b = Some ''fasta'' \<longrightarrow>
            table_entry d' a (fill_tag b) ''chromsizes''
              = Some (chromsizes_path rd a ''fasta'' (fill_tag b)))
    \<and> (table_entry d a t ''chromsizes'' = Some (chromsizes_path rd a ''fasta'' t) \<longrightarrow>
          table_entry d' a t ''chromsizes'' = Some (chromsizes_path rd a ''fasta'' t))"
proof -
  from assms obtain a0 where a0: "assembly b = Some a0"
    by (cases "assembly b") (simp_all add: process_block_def)
  from assms a0 obtain ty where ty: "type b = Some ty"
    by (cases "type b") (simp_all add: process_block_def)
  define row where "row = (case d a0 of None \<Rightarrow> Map.empty | Some r \<Rightarrow> r)"
  define e where "e = (case row (fill_tag b) of None \<Rightarrow> Map.empty | Some c \<Rightarrow> c)"
  have e_entry: "e k = table_entry d a0 (fill_tag b) k" for k
    by (simp add: e_def row_def table_entry_def split: option.splits)
  have unfolded: "process_block al rd d b =
      (if e ty \<noteq> None then Inl (ValueError (tag_exists_message (fill_tag b) ty a0))
       else (case add_derived al rd a0 ty (fill_tag b) b (e(ty \<mapsto> type_path rd a0 ty (fill_tag b))) of
               Inl err \<Rightarrow> Inl err
             | Inr e' \<Rightarrow> Inr (d(a0 \<mapsto> row(fill_tag b \<mapsto> e')))))"
    using a0 ty unfolding e_def row_def by (simp add: process_block_def Let_def)
  from assms have free: "e ty = None"
    unfolding unfolded by (simp split: if_splits)
  from assms free obtain e' where
    e': "add_derived al rd a0 ty (fill_tag b) b (e(ty \<mapsto> type_path rd a0 ty (fill_tag b))) = Inr e'"
    and d': "d' = d(a0 \<mapsto> row(fill_tag b \<mapsto> e'))"
    unfolding unfolded by (auto split: sum.splits)
  have entry': "table_entry d' a' t' k = (if a' = a0 \<and> t' = fill_tag b then e' k else table_entry d a' t' k)"
    for a' t' k
    unfolding d' row_def by (rule table_entry_upd)
  note chrom = add_derived_chromsizes [OF e']
  have first: "table_entry d' a (fill_tag b) ''chromsizes''
              = Some (chromsizes_path rd a ''fasta'' (fill_tag b))"
    if "assembly b = Some a" "type b = Some ''fasta''"
    using that a0 ty chrom by (simp add: entry')
  have second: "table_entry d' a t ''chromsizes'' = Some (chromsizes_path rd a ''fasta'' t)"
    if old: "table_entry d a t ''chromsizes'' = Some (chromsizes_path rd a ''fasta'' t)"
  proof (cases "a = a0 \<and> t = fill_tag b")
    case True
    with old e_entry [of "''chromsizes''"] have "e ''chromsizes'' \<noteq> None" by simp
    with free have "ty \<noteq> ''chromsizes''" by auto
    with chrom old True e_entry [of "''chromsizes''"] show ?thesis
      by (cases "ty = ''fasta''") (simp_all add: entry')
  next
    case False
    with old show ?thesis by (auto simp: entry')
  qed
  from first second show ?thesis by blast
qed

lemma process_blocks_chromsizes_keeps:
  "process_blocks al rd bs d = Inr d' \<Longrightarrow>
   table_entry d a t ''chromsizes'' = Some (chromsizes_path rd a ''fasta'' t) \<Longrightarrow>
   table_entry d' a t ''chromsizes'' = Some (chromsizes_path rd a ''fasta'' t)"
proof (induction bs arbitrary: d)
  case Nil
  then show ?case by simp
next
  case (Cons x bs)
  from Cons.prems(1) obtain d1 where
    d1: "process_block al rd d x = Inr d1" and rest: "process_blocks al rd bs d1 = Inr d'"
    by (auto split: sum.splits)
  from process_block_chromsizes [OF d1, of a t] Cons.prems(2)
  have "table_entry d1 a t ''chromsizes'' = Some (chromsizes_path rd a ''fasta'' t)"
    by blast
  from Cons.IH [OF rest this] show ?case .
qed

lemma process_blocks_chromsizes:
  "process_blocks al rd bs d = Inr d' \<Longrightarrow> b \<in> set bs \<Longrightarrow> assembly b = Some a \<Longrightarrow>
   type b = Some ''fasta'' \<Longrightarrow>
   table_entry d' a (fill_tag b) ''chromsizes'' = Some (chromsizes_path rd a ''fasta'' (fill_tag b))"
proof (induction bs arbitrary: d)
  case Nil
  then show ?case by simp
next
  case (Cons x bs)
  from Cons.prems(1) obtain d1 where
    d1: "process_block al rd d x = Inr d1" and rest: "process_blocks al rd bs d1 = Inr d'"
    by (auto split: sum.splits)
  show ?case
  proof (cases "b = x")
    case True
    with process_block_chromsizes [OF d1, of a "fill_tag b"] Cons.prems(3,4)
    have "table_entry d1 a (fill_tag b) ''chromsizes''
            = Some (chromsizes_path rd a ''fasta'' (fill_tag b))"
      by blast
    from process_blocks_chromsizes_keeps [OF rest this] show ?thesis .
  next
    case False
    with Cons.prems(2) have "b \<in> set bs" by simp
    from Cons.IH [OF rest this Cons.prems(3,4)] show ?thesis .
  qed
qed

lemma add_derived_drop_unused:
  "type b = Some ty \<Longrightarrow>
     add_derived al rd a ty t (drop_unused b) e = add_derived al rd a ty t b e"
  by (cases "ty = ''gtf''"; cases "ty = ''fasta''")
    (simp_all add: add_derived_def drop_unused_def split: sum.splits)

lemma process_block_drop_unused:
  "process_block al rd d (drop_unused b) = process_block al rd d b"
proof -
  have sel: "assembly (drop_unused b) = assembly b" "type (drop_unused b) = type b"
    "fill_tag (drop_unused b) = fill_tag b"
    by (simp_all add: drop_unused_def fill_tag_def)
  show ?thesis
  proof (cases "assembly b")
    case None
    then show ?thesis unfolding process_block_def sel by simp
  next
    case a: (Some a)
    show ?thesis
    proof (cases "type b")
      case None
      with a show ?thesis unfolding process_block_def sel by simp
    next
      case (Some ty)
      with a show ?thesis
        unfolding process_block_def sel by (simp add: add_derived_drop_unused Let_def)
    qed
  qed
qed

lemma process_blocks_drop_unused:
  "process_blocks al rd (map drop_unused bs) d = process_blocks al rd bs d"
  by (induction bs arbitrary: d) (simp_all add: process_block_drop_unused split: sum.splits)

lemma first_missing_kind_is_raised:
  assumes "references cfg = Some blocks" "j < length blocks"
    "config_to_dict al environ (cfg\<lparr>references := Some (take j blocks)\<rparr>) = Inr d"
    "assembly (blocks ! j) = Some a" "type (blocks ! j) = Some ty"
    "table_entry d a (fill_tag (blocks ! j)) ty = None"
  shows "(ty = ''fasta'' \<longrightarrow>
           (\<forall>is k. indexes (blocks ! j) = Some is \<and> k \<in> set is \<and> index_extensions al k = None \<longrightarrow>
              (\<exists>k'. find (\<lambda>i. index_extensions al i = None) is = Some k'
                    \<and> config_to_dict al environ cfg = Inl (KeyError k'))))
    \<and> (ty = ''gtf'' \<longrightarrow>
           (\<forall>cs k. conversions (blocks ! j) = Some cs \<and> k \<in> set cs
                   \<and> conversion_extensions k = None \<longrightarrow>
              (\<exists>k'. find (\<lambda>c. conversion_extensions c = None) cs = Some k'
                    \<and> config_to_dict al environ cfg = Inl (KeyError k'))))"
proof -
  from assms(3) obtain rd where rd: "get_references_dir environ cfg = Some rd"
    by (cases "get_references_dir environ cfg") (simp_all add: config_to_dict_def)
  have whole: "config_to_dict al environ cfg = process_blocks al rd blocks Map.empty"
    using rd assms(1) by (simp add: config_to_dict_def)
  have part: "process_blocks al rd (take j blocks) Map.empty = Inr d"
    using rd assms(3) by (simp add: config_to_dict_def)
  define row where "row = (case d a of None \<Rightarrow> Map.empty | Some r \<Rightarrow> r)"
  define e where "e = (case row (fill_tag (blocks ! j)) of None \<Rightarrow> Map.empty | Some c \<Rightarrow> c)"
  have "e ty = table_entry d a (fill_tag (blocks ! j)) ty"
    by (simp add: e_def row_def table_entry_def split: option.splits)
  with assms(6) have free: "e ty = None" by simp
  have unfolded: "process_block al rd d (blocks ! j) =
      (case add_derived al rd a ty (fill_tag (blocks ! j)) (blocks ! j)
              (e(ty \<mapsto> type_path rd a ty (fill_tag (blocks ! j)))) of
         Inl err \<Rightarrow> Inl err
       | Inr e' \<Rightarrow> Inr (d(a \<mapsto> row(fill_tag (blocks ! j) \<mapsto> e'))))"
    using assms(4,5) free unfolding e_def row_def by (simp add: process_block_def Let_def)
  have fasta: "config_to_dict al environ cfg = Inl (KeyError k')"
    if "ty = ''fasta''" "indexes (blocks ! j) = Some is"
      "find (\<lambda>i. index_extensions al i = None) is = Some k'" for "is" k'
  proof -
    from that add_indexes_find [OF that(3)]
    have "process_block al rd d (blocks ! j) = Inl (KeyError k')"
      unfolding unfolded by (simp add: add_derived_def)
    from process_blocks_at [OF assms(2) part this] whole show ?thesis by simp
  qed
  have gtf: "config_to_dict al environ cfg = Inl (KeyError k')"
    if "ty = ''gtf''" "conversions (blocks ! j) = Some cs"
      "find (\<lambda>c. conversion_extensions c = None) cs = Some k'" for cs k'
  proof -
    from that add_conversions_find [OF that(3)]
    have "process_block al rd d (blocks ! j) = Inl (KeyError k')"
      unfolding unfolded by (simp add: add_derived_def)
    from process_blocks_at [OF assms(2) part this] whole show ?thesis by simp
  qed
  have ex: "\<exists>k'. find P xs = Some k'" if "k \<in> set xs" "P k" for P :: "string \<Rightarrow> bool" and xs k
    using that by (cases "find P xs") (auto simp: find_None_iff)
  show ?thesis
  proof (intro conjI impI allI)
    fix "is" k
    assume "ty = ''fasta''"
      and "indexes (blocks ! j) = Some is \<and> k \<in> set is \<and> index_extensions al k = None"
    then have hyp: "ty = ''fasta''" "indexes (blocks ! j) = Some is" "k \<in> set is"
      "index_extensions al k = None"
      by simp_all
    from ex [of k "is" "\<lambda>i. index_extensions al i = None", OF hyp(3,4)]
    obtain k' where k': "find (\<lambda>i. index_extensions al i = None) is = Some k'" ..
    from fasta [OF hyp(1,2) k'] k'
    show "\<exists>k'. find (\<lambda>i. index_extensions al i = None) is = Some k'
      \<and> config_to_dict al environ cfg = Inl (KeyError k')"
      by simp
  next
    fix cs k
    assume "ty = ''gtf''"
      and "conversions (blocks ! j) = Some cs \<and> k \<in> set cs \<and> conversion_extensions k = None"
    then have hyp: "ty = ''gtf''" "conversions (blocks ! j) = Some cs" "k \<in> set cs"
      "conversion_extensions k = None"
      by simp_all
    from ex [of k cs "\<lambda>c. conversion_extensions c = None", OF hyp(3,4)]
    obtain k' where k': "find (\<lambda>c. conversion_extensions c = None) cs = Some k'" ..
    from gtf [OF hyp(1,2) k'] k'
    show "\<exists>k'. find (\<lambda>c. conversion_extensions c = None) cs = Some k'
      \<and> config_to_dict al environ cfg = Inl (KeyError k')"
      by simp
  qed
qed

subsection \<open>The steps of \<^verbatim>\<open>download_and_postprocess\<close>\<close>

lemma cleanup_removes:
  assumes "\<forall>i\<in>set tmpfiles. \<forall>w'. i \<in> w' \<longrightarrow> shell_rm env i w' = Returns (w' - {i})"
  shows "cleanup env tmpfiles w = Returns (w - set tmpfiles)"
  using assms
proof (induction tmpfiles arbitrary: w)
  case Nil
  then show ?case by simp
next
  case (Cons i rest)
  from Cons.prems have rest: "\<forall>i\<in>set rest. \<forall>w'. i \<in> w' \<longrightarrow> shell_rm env i w' = Returns (w' - {i})"
    by simp
  show ?case
  proof (cases "i \<in> w")
    case True
    with Cons.prems have "shell_rm env i w = Returns (w - {i})"
      by simp
    with True have "cleanup env (i # rest) w = cleanup env rest (w - {i})"
      by simp
    also have "\<dots> = Returns (w - {i} - set rest)"
      by (rule Cons.IH [OF rest])
    also have "w - {i} - set rest = w - set (i # rest)"
      by auto
    finally show ?thesis .
  next
    case False
    then have "cleanup env (i # rest) w = cleanup env rest w"
      by simp
    also have "\<dots> = Returns (w - set rest)"
      by (rule Cons.IH [OF rest])
    also from False have "w - set rest = w - set (i # rest)"
      by auto
    finally show ?thesis .
  qed
qed

lemma cleanup_raises:
  assumes "i \<in> w" "shell_rm env i w = Raises err w'"
  shows "cleanup env (i # rest) w = Raises err w'"
  using assms by simp

lemma cleanup_unquoted_path:
  "cleanup example_collaborators [''my out.0.tmp''] {''my out.0.tmp''}
     = Raises (CalledProcessError ''rm'') {''my out.0.tmp''}"
  by (simp add: example_collaborators_def example_rm_def shell_word_def)

lemma build_lookup_error:
  "build_lookup bs d = Inl err \<Longrightarrow> \<forall>b\<in>set bs. assembly b \<noteq> None \<Longrightarrow>
     \<exists>a t. err = ValueErrorKeyExists a t"
proof (induction bs arbitrary: d)
  case Nil
  then show ?case by simp
next
  case (Cons i rest)
  from Cons.prems(2) obtain a where a: "assembly i = Some a" by auto
  show ?case
  proof (cases "d (a, fill_tag i) \<noteq> None")
    case True
    with Cons.prems(1) a show ?thesis by (auto simp: Let_def)
  next
    case False
    with Cons.prems(1) a have "build_lookup rest (d((a, fill_tag i) \<mapsto> i)) = Inl err"
      by (simp add: Let_def)
    from Cons.IH [OF this] Cons.prems(2) show ?thesis by simp
  qed
qed

lemma build_lookup_Inr:
  "build_lookup bs d = Inr d' \<Longrightarrow>
     distinct (map lookup_key bs)
     \<and> (\<forall>b\<in>set bs. \<forall>a. assembly b = Some a \<longrightarrow> d (a, fill_tag b) = None)"
proof (induction bs arbitrary: d)
  case Nil
  then show ?case by simp
next
  case (Cons i rest)
  from Cons.prems obtain a where a: "assembly i = Some a"
    by (cases "assembly i") simp_all
  from Cons.prems a have free: "d (a, fill_tag i) = None"
    by (simp add: Let_def split: if_splits)
  with Cons.prems a have rest: "build_lookup rest (d((a, fill_tag i) \<mapsto> i)) = Inr d'"
    by (simp add: Let_def)
  from Cons.IH [OF rest] have
    ih: "distinct (map lookup_key rest)"
      "\<forall>b\<in>set rest. \<forall>a'. assembly b = Some a' \<longrightarrow> (d((a, fill_tag i) \<mapsto> i)) (a', fill_tag b) = None"
    by blast+
  have "lookup_key i \<notin> lookup_key ` set rest"
  proof
    assume "lookup_key i \<in> lookup_key ` set rest"
    then obtain b where b: "b \<in> set rest" "lookup_key b = lookup_key i" by auto
    with a have ba: "assembly b = Some a" and bt: "fill_tag b = fill_tag i"
      by (simp_all add: lookup_key_def)
    from ih(2) b(1) ba have "(d((a, fill_tag i) \<mapsto> i)) (a, fill_tag b) = None"
      by blast
    then show False unfolding bt by simp
  qed
  moreover have "\<forall>b\<in>set (i # rest). \<forall>a'. assembly b = Some a' \<longrightarrow> d (a', fill_tag b) = None"
  proof (intro ballI allI impI)
    fix b a' assume b: "b \<in> set (i # rest)" "assembly b = Some a'"
    show "d (a', fill_tag b) = None"
    proof (cases "b = i")
      case True
      with a b free show ?thesis by simp
    next
      case False
      with b have "b \<in> set rest" by simp
      with ih(2) b(2) have "(d((a, fill_tag i) \<mapsto> i)) (a', fill_tag b) = None" by blast
      then show ?thesis
        by (simp split: if_splits)
    qed
  qed
  ultimately show ?case using ih(1) by simp
qed

lemma build_lookup_shared:
  assumes "i < j" "j < length blocks" "lookup_key (blocks ! i) = lookup_key (blocks ! j)"
    "\<forall>b\<in>set blocks. assembly b \<noteq> None"
  shows "\<exists>a t. build_lookup blocks d = Inl (ValueErrorKeyExists a t)"
proof (cases "build_lookup blocks d")
  case (Inl err)
  with build_lookup_error [OF Inl assms(4)] show ?thesis by auto
next
  case (Inr d')
  from build_lookup_Inr [OF Inr] have "distinct (map lookup_key blocks)" by blast
  then have "(map lookup_key blocks ! i = map lookup_key blocks ! j) = (i = j)"
    using assms(1,2) by (intro nth_eq_iff_index_eq) simp_all
  with assms(1,2,3) have False by simp
  then show ?thesis ..
qed

lemma download_and_postprocess_reaches:
  assumes "references cfg = Some blocks" "build_lookup blocks Map.empty = Inr d"
    "references_dir cfg = Some rd" "outfile \<noteq> []" "d (a, t) = Some b"
  shows "download_and_postprocess env outfile cfg a t w =
     (case select_postprocess env b of
        Inl err \<Rightarrow> Raises err w
      | Inr (f, args) \<Rightarrow>
          (case url b of
             None \<Rightarrow> Raises (KeyError ''url'') w
           | Some u \<Rightarrow> download_and_call env outfile f args u w))"
  using assms by (simp add: download_and_postprocess_def)

subsection \<open>The claims\<close>

text \<open>
  C1, as the code has it. Take a call that gets as far as the downloads (the lookup is
  built, the block of \<^verbatim>\<open>(assembly, tag)\<close> is found, its function is resolved, it has a
  url) and whose downloads return. When the postprocessing function returns, the call goes
  on with the loop that removes the temporary files \<^verbatim>\<open>{outfile}.{i}.tmp\<close> and ends as that
  loop ends; when moreover every \<^verbatim>\<open>rm\<close> run on a temporary file removes that file and
  returns, the call returns and none of its temporary files exists afterwards: the file
  system is the one the function left, without the temporary files. When the function
  raises, the call raises the same exception at once and the file system is as the function
  left it: the loop that removes the temporary files is not run. So the temporary files are
  removed on the normal path only, and there only as far as \<^verbatim>\<open>rm\<close> succeeds.
\<close>

theorem tmpfiles_after_call:
  assumes "references cfg = Some blocks" "build_lookup blocks Map.empty = Inr d"
    "references_dir cfg = Some rd" "outfile \<noteq> []" "d (a, t) = Some b"
    "select_postprocess env b = Inr (f, args)" "url b = Some u"
    "tmpfiles = make_tmpfiles outfile (url_list u)"
    "fetch_all env outfile (zip (url_list u) tmpfiles) w = Returns w1"
  shows "(\<forall>w2. call_func f tmpfiles outfile args w1 = Returns w2 \<longrightarrow>
            download_and_postprocess env outfile cfg a t w = cleanup env tmpfiles w2
            \<and> ((\<forall>i\<in>set tmpfiles. \<forall>w'. i \<in> w' \<longrightarrow> shell_rm env i w' = Returns (w' - {i})) \<longrightarrow>
                 download_and_postprocess env outfile cfg a t w = Returns (w2 - set tmpfiles)))
    \<and> (\<forall>err w2. call_func f tmpfiles outfile args w1 = Raises err w2 \<longrightarrow>
            download_and_postprocess env outfile cfg a t w = Raises err w2)"
proof -
  have "download_and_postprocess env outfile cfg a t w = download_and_call env outfile f args u w"
    using download_and_postprocess_reaches [OF assms(1-5)] assms(6,7) by simp
  also have "\<dots> = (case call_func f tmpfiles outfile args w1 of
                       Raises err w2 \<Rightarrow> Raises err w2
                     | Returns w2 \<Rightarrow> cleanup env tmpfiles w2)"
    using assms(9) unfolding assms(8) by (simp add: download_and_call_def Let_def)
  finally have call: "download_and_postprocess env outfile cfg a t w =
      (case call_func f tmpfiles outfile args w1 of
         Raises err w2 \<Rightarrow> Raises err w2
       | Returns w2 \<Rightarrow> cleanup env tmpfiles w2)" .
  have returns: "download_and_postprocess env outfile cfg a t w = cleanup env tmpfiles w2"
    if "call_func f tmpfiles outfile args w1 = Returns w2" for w2
    using that by (simp add: call)
  have removed: "download_and_postprocess env outfile cfg a t w = Returns (w2 - set tmpfiles)"
    if "call_func f tmpfiles outfile args w1 = Returns w2"
      and "\<forall>i\<in>set tmpfiles. \<forall>w'. i \<in> w' \<longrightarrow> shell_rm env i w' = Returns (w' - {i})" for w2
    using returns [OF that(1)] cleanup_removes [OF that(2), of w2] by simp
  have raises: "download_and_postprocess env outfile cfg a t w = Raises err w2"
    if "call_func f tmpfiles outfile args w1 = Raises err w2" for err w2
    using that by (simp add: call)
  from returns removed raises show ?thesis by blast
qed

theorem tmpfiles_after_call_witness:
  "make_tmpfiles ''out'' (url_list two_urls) = [''out.0.tmp'', ''out.1.tmp'']
   \<and> shell_rm example_collaborators ''out.0.tmp'' {''out.0.tmp'', ''out.1.tmp''}
       = Returns {''out.1.tmp''}
   \<and> download_and_postprocess example_collaborators ''out''
         (download_config two_urls (Some (PostStr ''lib.common.cat''))) ''dm6'' ''default'' {}
       = Returns {''out'', ''out.log''}"
  using tmpfiles_after_call [of "download_config two_urls (Some (PostStr ''lib.common.cat''))"
      "[download_block two_urls (Some (PostStr ''lib.common.cat''))]"
      "[(''dm6'', ''default'') \<mapsto> download_block two_urls (Some (PostStr ''lib.common.cat''))]"
      "''/data''" "''out''" "''dm6''" "''default''"
      "download_block two_urls (Some (PostStr ''lib.common.cat''))"
      example_collaborators "Resolved cat_fn" "[]" two_urls "[''out.0.tmp'', ''out.1.tmp'']" "{}"
      "{''out.1.tmp'', ''out.log'', ''out.0.tmp'', ''out.log''}"]
  by (simp add: download_unfold)

text \<open>
  A call in which the function raises: \<^verbatim>\<open>cat\<close> is configured with one extra argument, so
  \<^verbatim>\<open>func(tmpfiles, outfile, *args)\<close> is a \<^verbatim>\<open>TypeError\<close>. The temporary file of the call,
  \<^verbatim>\<open>out.0.tmp\<close>, is still there when the exception leaves \<^verbatim>\<open>download_and_postprocess\<close>.
\<close>

theorem tmpfiles_remain_counterexample:
  "make_tmpfiles ''out'' (url_list (UrlStr ''http://host/a.fa.gz'')) = [''out.0.tmp'']
   \<and> download_and_postprocess example_collaborators ''out''
         (download_config (UrlStr ''http://host/a.fa.gz'') (Some cat_with_argument))
         ''dm6'' ''default'' {}
       = Raises (TypeError ''cat'') {''out.0.tmp'', ''out.log''}"
  by (simp add: download_unfold)

text \<open>
  C2, as the code has it. Let two blocks of the references list, at positions \<open>i < j\<close>,
  share the assembly and the fill-in tag and differ in type, every block having an assembly.
  Then the lookup-building step of \<^verbatim>\<open>download_and_postprocess\<close> raises the \<^verbatim>\<open>ValueError\<close>
  of a key that already exists, and the call raises it with the file system untouched.
  \<^verbatim>\<open>config_to_dict\<close> does not reject the pair for sharing assembly and tag: it returns a
  table exactly for the configurations described by \<open>accepted\<close>. Its test is
  \<^verbatim>\<open>type_ in e\<close>, on all keys of the cell, so when the type of the later block is one of
  the keys written for the earlier block (its type, its conversion or index kinds,
  \<^verbatim>\<open>chromsizes\<close>) it returns no table, and when the blocks before the later one are gone
  through without an error, the error is the \<^verbatim>\<open>ValueError\<close> that the tag already exists for
  the type of the later block.
\<close>

theorem shared_assembly_tag:
  assumes "references cfg = Some blocks" "i < j" "j < length blocks"
    "assembly (blocks ! i) = assembly (blocks ! j)" "fill_tag (blocks ! i) = fill_tag (blocks ! j)"
    "type (blocks ! i) \<noteq> type (blocks ! j)" "\<forall>b\<in>set blocks. assembly b \<noteq> None"
  shows "(\<exists>a' t'. build_lookup blocks Map.empty = Inl (ValueErrorKeyExists a' t')
            \<and> download_and_postprocess env outfile cfg a t w = Raises (ValueErrorKeyExists a' t') w)
    \<and> ((\<exists>d. config_to_dict al environ cfg = Inr d) = accepted al environ cfg)
    \<and> (\<forall>ty. type (blocks ! j) = Some ty \<and> ty \<in> set (block_kinds (blocks ! i)) \<longrightarrow>
           (\<exists>err. config_to_dict al environ cfg = Inl err)
           \<and> (\<forall>d aj. config_to_dict al environ (cfg\<lparr>references := Some (take j blocks)\<rparr>) = Inr d
                      \<and> assembly (blocks ! j) = Some aj \<longrightarrow>
                 config_to_dict al environ cfg
                   = Inl (ValueError (tag_exists_message (fill_tag (blocks ! j)) ty aj))))"
proof -
  have "lookup_key (blocks ! i) = lookup_key (blocks ! j)"
    using assms(4,5) by (simp add: lookup_key_def)
  from build_lookup_shared [OF assms(2,3) this assms(7), of Map.empty]
  obtain a' t' where err: "build_lookup blocks Map.empty = Inl (ValueErrorKeyExists a' t')"
    by blast
  with assms(1) have "download_and_postprocess env outfile cfg a t w
      = Raises (ValueErrorKeyExists a' t') w"
    by (simp add: download_and_postprocess_def)
  with err have first: "\<exists>a' t'. build_lookup blocks Map.empty = Inl (ValueErrorKeyExists a' t')
      \<and> download_and_postprocess env outfile cfg a t w = Raises (ValueErrorKeyExists a' t') w"
    by blast
  have third: "\<exists>err. config_to_dict al environ cfg = Inl err"
    if ty: "type (blocks ! j) = Some ty" "ty \<in> set (block_kinds (blocks ! i))" for ty
  proof (cases "config_to_dict al environ cfg")
    case (Inl err)
    then show ?thesis by blast
  next
    case (Inr d)
    with config_to_dict_accepted [of al environ cfg] have "accepted al environ cfg"
      by blast
    with assms(1) have "sorted_wrt (\<lambda>p q. \<not> clash p q) blocks"
      by (simp add: accepted_def)
    with assms(2,3) have "\<not> clash (blocks ! i) (blocks ! j)"
      by (simp add: sorted_wrt_iff_nth_less)
    with assms(4,5) ty have False
      by (simp add: clash_def)
    then show ?thesis ..
  qed
  have fourth: "config_to_dict al environ cfg
                  = Inl (ValueError (tag_exists_message (fill_tag (blocks ! j)) ty aj))"
    if ty: "type (blocks ! j) = Some ty" "ty \<in> set (block_kinds (blocks ! i))"
      and part: "config_to_dict al environ (cfg\<lparr>references := Some (take j blocks)\<rparr>) = Inr d"
      and aj: "assembly (blocks ! j) = Some aj" for ty d aj
  proof -
    from part obtain rd where rd: "get_references_dir environ cfg = Some rd"
      by (cases "get_references_dir environ cfg") (simp_all add: config_to_dict_def)
    have whole: "config_to_dict al environ cfg = process_blocks al rd blocks Map.empty"
      using rd assms(1) by (simp add: config_to_dict_def)
    have pre: "process_blocks al rd (take j blocks) Map.empty = Inr d"
      using rd part by (simp add: config_to_dict_def)
    have mem: "blocks ! i \<in> set (take j blocks)"
      using assms(2,3) by (auto simp: in_set_conv_nth intro!: exI [of _ i])
    have ai: "assembly (blocks ! i) = Some aj"
      using assms(4) aj by simp
    from process_blocks_enters_kind [OF pre mem ai ty(2)] assms(5)
    have "table_entry d aj (fill_tag (blocks ! j)) ty \<noteq> None"
      by simp
    from process_block_dup [OF aj ty(1) this]
    have "process_block al rd d (blocks ! j)
            = Inl (ValueError (tag_exists_message (fill_tag (blocks ! j)) ty aj))" .
    from process_blocks_at [OF assms(3) pre this] whole show ?thesis by simp
  qed
  from first config_to_dict_accepted [of al environ cfg] third fourth show ?thesis
    by blast
qed

theorem shared_assembly_tag_witness:
  "download_and_postprocess example_collaborators ''out'' shared_tag_config ''dm6'' ''default'' {}
     = Raises (ValueErrorKeyExists ''dm6'' ''default'') {}
   \<and> accepted doctest_aligners None shared_tag_config
   \<and> (\<exists>d. config_to_dict doctest_aligners None shared_tag_config = Inr d)
   \<and> type (chromsizes_type_blocks ! 1) = Some ''chromsizes''
   \<and> ''chromsizes'' \<in> set (block_kinds (chromsizes_type_blocks ! 0))
   \<and> (\<exists>d. config_to_dict doctest_aligners None
             (chromsizes_type_config\<lparr>references := Some (take 1 chromsizes_type_blocks)\<rparr>) = Inr d)
   \<and> config_to_dict doctest_aligners None chromsizes_type_config
       = Inl (ValueError (tag_exists_message ''default'' ''chromsizes'' ''dm6''))"
  using shared_assembly_tag [of shared_tag_config shared_tag_blocks 0 1 example_collaborators
      "''out''" "''dm6''" "''default''" "{}" doctest_aligners None]
    shared_assembly_tag [of chromsizes_type_config chromsizes_type_blocks 0 1
      example_collaborators "''out''" "''dm6''" "''default''" "{}" doctest_aligners None]
  by (simp add: shared_tag_config_def shared_tag_blocks_def chromsizes_type_config_def
      chromsizes_type_blocks_def plain_block_def accepted_def block_ok_def clash_def
      block_kinds_def config_to_dict_unfold)

text \<open>
  Two blocks that share assembly and tag and differ in type, in a configuration with nothing
  else wrong, which \<^verbatim>\<open>config_to_dict\<close> rejects: a \<^verbatim>\<open>fasta\<close> block, then a block of type
  \<^verbatim>\<open>chromsizes\<close>.
\<close>

theorem shared_assembly_tag_counterexample:
  "assembly (chromsizes_type_blocks ! 0) = assembly (chromsizes_type_blocks ! 1)
   \<and> fill_tag (chromsizes_type_blocks ! 0) = fill_tag (chromsizes_type_blocks ! 1)
   \<and> type (chromsizes_type_blocks ! 0) \<noteq> type (chromsizes_type_blocks ! 1)
   \<and> config_to_dict doctest_aligners None chromsizes_type_config
       = Inl (ValueError ''tag default already exists for type chromsizes in assembly dm6'')"
  by (simp add: chromsizes_type_config_def chromsizes_type_blocks_def plain_block_def
      config_to_dict_unfold)

text \<open>
  C3. When two blocks of the references list, at positions \<open>i < j\<close>, have the same
  assembly, the same fill-in tag and the same type, \<^verbatim>\<open>config_to_dict\<close> raises and returns no
  table, wherever the two blocks are in the list. When the blocks before the second one are
  gone through without an error, the error is the \<^verbatim>\<open>ValueError\<close> whose message names the
  tag, the type and the assembly: the second block does not overwrite the entry of the
  first.
\<close>

theorem duplicate_type_raises:
  assumes "references cfg = Some blocks" "i < j" "j < length blocks"
    "assembly (blocks ! i) = Some a" "assembly (blocks ! j) = Some a"
    "fill_tag (blocks ! i) = t" "fill_tag (blocks ! j) = t"
    "type (blocks ! i) = Some ty" "type (blocks ! j) = Some ty"
  shows "(\<exists>err. config_to_dict al environ cfg = Inl err)
    \<and> (\<forall>d. config_to_dict al environ (cfg\<lparr>references := Some (take j blocks)\<rparr>) = Inr d \<longrightarrow>
          config_to_dict al environ cfg = Inl (ValueError (tag_exists_message t ty a)))"
proof (cases "get_references_dir environ cfg")
  case None
  then show ?thesis by (simp add: config_to_dict_def)
next
  case (Some rd)
  have whole: "config_to_dict al environ cfg = process_blocks al rd blocks Map.empty"
    using Some assms(1) by (simp add: config_to_dict_def)
  have part: "config_to_dict al environ (cfg\<lparr>references := Some (take j blocks)\<rparr>)
                = process_blocks al rd (take j blocks) Map.empty"
    using Some by (simp add: config_to_dict_def)
  have dup: "process_blocks al rd blocks Map.empty = Inl (ValueError (tag_exists_message t ty a))"
    if d: "process_blocks al rd (take j blocks) Map.empty = Inr d" for d
  proof -
    have "blocks ! i \<in> set (take j blocks)"
      using assms(2,3) by (auto simp: in_set_conv_nth intro!: exI [of _ i])
    from process_blocks_enters [OF d this assms(4,8)] assms(6)
    have "table_entry d a (fill_tag (blocks ! j)) ty \<noteq> None"
      using assms(7) by simp
    from process_block_dup [OF assms(5,9) this] assms(7)
    have "process_block al rd d (blocks ! j) = Inl (ValueError (tag_exists_message t ty a))"
      by simp
    from process_blocks_at [OF assms(3) d this] show ?thesis .
  qed
  show ?thesis
  proof (cases "process_blocks al rd (take j blocks) Map.empty")
    case (Inl err)
    from process_blocks_prefix_error [OF this] show ?thesis
      unfolding whole part using Inl by simp
  next
    case (Inr d)
    from dup [OF this] show ?thesis
      unfolding whole part by simp
  qed
qed

theorem duplicate_type_raises_witness:
  "duplicate_blocks ! 0 = plain_block ''dm6'' ''fasta''
   \<and> duplicate_blocks ! 2 = plain_block ''dm6'' ''fasta''
   \<and> (\<exists>d. config_to_dict doctest_aligners None
              (duplicate_config\<lparr>references := Some (take 2 duplicate_blocks)\<rparr>) = Inr d)
   \<and> config_to_dict doctest_aligners None duplicate_config
       = Inl (ValueError ''tag default already exists for type fasta in assembly dm6'')"
  using duplicate_type_raises [of duplicate_config duplicate_blocks 0 2 "''dm6''" "''default''"
      "''fasta''" doctest_aligners None]
  by (simp add: duplicate_config_def duplicate_blocks_def plain_block_def config_to_dict_unfold)

text \<open>
  C4, as the code has it. Take a block that the loop reaches, the blocks before it having
  given the table \<open>d\<close>. When its type is already an entry of its cell, \<^verbatim>\<open>config_to_dict\<close>
  raises the \<^verbatim>\<open>ValueError\<close> that the tag already exists, before it reads any kind.
  Otherwise, when it is a \<^verbatim>\<open>fasta\<close> block and its indexes contain a kind that is no key of
  \<^verbatim>\<open>index_extensions\<close>, or it is a \<^verbatim>\<open>gtf\<close> block and its conversions contain a kind that
  is no key of \<^verbatim>\<open>conversion_extensions\<close>, \<^verbatim>\<open>config_to_dict\<close> raises the \<^verbatim>\<open>KeyError\<close> that
  names the first such kind of the list, which need not be the kind one started from. No
  unknown kind is skipped: no table is returned.
\<close>

theorem unknown_kind_raises:
  assumes "references cfg = Some blocks" "j < length blocks"
    "config_to_dict al environ (cfg\<lparr>references := Some (take j blocks)\<rparr>) = Inr d"
    "assembly (blocks ! j) = Some a" "type (blocks ! j) = Some ty"
  shows "(table_entry d a (fill_tag (blocks ! j)) ty \<noteq> None \<longrightarrow>
           config_to_dict al environ cfg
             = Inl (ValueError (tag_exists_message (fill_tag (blocks ! j)) ty a)))
    \<and> (table_entry d a (fill_tag (blocks ! j)) ty = None \<longrightarrow>
         (ty = ''fasta'' \<longrightarrow>
           (\<forall>is k. indexes (blocks ! j) = Some is \<and> k \<in> set is \<and> index_extensions al k = None \<longrightarrow>
              (\<exists>k'. find (\<lambda>i. index_extensions al i = None) is = Some k'
                    \<and> config_to_dict al environ cfg = Inl (KeyError k'))))
         \<and> (ty = ''gtf'' \<longrightarrow>
           (\<forall>cs k. conversions (blocks ! j) = Some cs \<and> k \<in> set cs
                   \<and> conversion_extensions k = None \<longrightarrow>
              (\<exists>k'. find (\<lambda>c. conversion_extensions c = None) cs = Some k'
                    \<and> config_to_dict al environ cfg = Inl (KeyError k')))))"
proof (rule conjI)
  show "table_entry d a (fill_tag (blocks ! j)) ty \<noteq> None \<longrightarrow>
           config_to_dict al environ cfg
             = Inl (ValueError (tag_exists_message (fill_tag (blocks ! j)) ty a))"
  proof (rule impI)
    assume present: "table_entry d a (fill_tag (blocks ! j)) ty \<noteq> None"
    from assms(3) obtain rd where rd: "get_references_dir environ cfg = Some rd"
      by (cases "get_references_dir environ cfg") (simp_all add: config_to_dict_def)
    have whole: "config_to_dict al environ cfg = process_blocks al rd blocks Map.empty"
      using rd assms(1) by (simp add: config_to_dict_def)
    have pre: "process_blocks al rd (take j blocks) Map.empty = Inr d"
      using rd assms(3) by (simp add: config_to_dict_def)
    from process_block_dup [OF assms(4,5) present]
    have "process_block al rd d (blocks ! j)
            = Inl (ValueError (tag_exists_message (fill_tag (blocks ! j)) ty a))" .
    from process_blocks_at [OF assms(2) pre this] whole
    show "config_to_dict al environ cfg
            = Inl (ValueError (tag_exists_message (fill_tag (blocks ! j)) ty a))"
      by simp
  qed
next
  show "table_entry d a (fill_tag (blocks ! j)) ty = None \<longrightarrow>
         (ty = ''fasta'' \<longrightarrow>
           (\<forall>is k. indexes (blocks ! j) = Some is \<and> k \<in> set is \<and> index_extensions al k = None \<longrightarrow>
              (\<exists>k'. find (\<lambda>i. index_extensions al i = None) is = Some k'
                    \<and> config_to_dict al environ cfg = Inl (KeyError k'))))
         \<and> (ty = ''gtf'' \<longrightarrow>
           (\<forall>cs k. conversions (blocks ! j) = Some cs \<and> k \<in> set cs
                   \<and> conversion_extensions k = None \<longrightarrow>
              (\<exists>k'. find (\<lambda>c. conversion_extensions c = None) cs = Some k'
                    \<and> config_to_dict al environ cfg = Inl (KeyError k'))))"
    by (rule impI) (rule first_missing_kind_is_raised [OF assms])
qed

theorem unknown_kind_raises_witness:
  "(\<exists>d. config_to_dict doctest_aligners None
           (unknown_index_config\<lparr>references := Some (take 1 unknown_index_blocks)\<rparr>) = Inr d
        \<and> table_entry d ''dm6'' ''r6'' ''fasta'' = None)
   \<and> ''bwa'' \<in> set [''bowtie2'', ''star'', ''bwa'']
   \<and> index_extensions doctest_aligners ''bwa'' = None
   \<and> find (\<lambda>i. index_extensions doctest_aligners i = None) [''bowtie2'', ''star'', ''bwa'']
       = Some ''star''
   \<and> config_to_dict doctest_aligners None unknown_index_config = Inl (KeyError ''star'')
   \<and> (\<exists>d. config_to_dict doctest_aligners None
           (duplicate_config\<lparr>references := Some (take 2 duplicate_blocks)\<rparr>) = Inr d
        \<and> table_entry d ''dm6'' ''default'' ''fasta'' \<noteq> None)
   \<and> config_to_dict doctest_aligners None duplicate_config
       = Inl (ValueError ''tag default already exists for type fasta in assembly dm6'')"
  using unknown_kind_raises [of unknown_index_config unknown_index_blocks 1 doctest_aligners None
      "projr (config_to_dict doctest_aligners None
         (unknown_index_config\<lparr>references := Some (take 1 unknown_index_blocks)\<rparr>))"
      "''dm6''" "''fasta''"]
    unknown_kind_raises [of duplicate_config duplicate_blocks 2 doctest_aligners None
      "projr (config_to_dict doctest_aligners None
         (duplicate_config\<lparr>references := Some (take 2 duplicate_blocks)\<rparr>))"
      "''dm6''" "''fasta''"]
  by (simp add: unknown_index_config_def unknown_index_blocks_def duplicate_config_def
      duplicate_blocks_def plain_block_def config_to_dict_unfold)

text \<open>
  A \<^verbatim>\<open>fasta\<close> block that the loop reaches, with the indexes \<^verbatim>\<open>bowtie2\<close>, \<^verbatim>\<open>star\<close>, \<^verbatim>\<open>bwa\<close>:
  \<^verbatim>\<open>bwa\<close> is no key of \<^verbatim>\<open>index_extensions\<close>, and the error that \<^verbatim>\<open>config_to_dict\<close> raises
  names \<^verbatim>\<open>star\<close>, not \<^verbatim>\<open>bwa\<close>.
\<close>

theorem unknown_kind_raises_counterexample:
  "type (unknown_index_blocks ! 1) = Some ''fasta''
   \<and> indexes (unknown_index_blocks ! 1) = Some [''bowtie2'', ''star'', ''bwa'']
   \<and> index_extensions doctest_aligners ''bwa'' = None
   \<and> config_to_dict doctest_aligners None unknown_index_config = Inl (KeyError ''star'')
   \<and> KeyError ''star'' \<noteq> KeyError ''bwa''"
  by (simp add: unknown_index_config_def unknown_index_blocks_def plain_block_def
      config_to_dict_unfold)

text \<open>
  C5. The references directory is the value of \<^verbatim>\<open>REFERENCES_DIR\<close> when the variable is set,
  whatever the configuration's \<^verbatim>\<open>references_dir\<close> is: the call then behaves as the call
  without the variable on the configuration whose \<^verbatim>\<open>references_dir\<close> is that value. When
  the variable is not set and the configuration has no \<^verbatim>\<open>references_dir\<close>, the call raises
  \<^verbatim>\<open>ValueError('References dir not set')\<close>.
\<close>

theorem references_dir_override:
  "get_references_dir (Some r) cfg = Some r
   \<and> config_to_dict al (Some r) cfg = config_to_dict al None (cfg\<lparr>references_dir := Some r\<rparr>)
   \<and> (references_dir cfg = None \<longrightarrow>
        config_to_dict al None cfg = Inl (ValueError ''References dir not set''))"
  by (simp add: config_to_dict_def get_references_dir_def)

theorem references_dir_override_witness:
  "get_references_dir (Some ''/env'') example_config = Some ''/env''
   \<and> table_entry (projr (config_to_dict doctest_aligners (Some ''/env'') example_config))
        ''dm6'' ''r6-11'' ''fasta'' = Some ''/env/dm6/fasta/dm6_r6-11.fasta''
   \<and> references_dir (example_config\<lparr>references_dir := None\<rparr>) = None
   \<and> config_to_dict doctest_aligners None (example_config\<lparr>references_dir := None\<rparr>)
       = Inl (ValueError ''References dir not set'')"
  using references_dir_override [of "''/env''" example_config doctest_aligners]
    references_dir_override [of "''/env''" "example_config\<lparr>references_dir := None\<rparr>" doctest_aligners]
  by (simp add: config_to_dict_unfold example_config_def example_block_def plain_block_def)

text \<open>
  C6. On the configuration with \<^verbatim>\<open>references_dir: "/data"\<close> and the one block
  \<^verbatim>\<open>{assembly: dm6, tag: r6-11, type: fasta, indexes: [bowtie2]}\<close>, with \<^verbatim>\<open>REFERENCES_DIR\<close>
  not set, \<^verbatim>\<open>config_to_dict\<close> returns a table whose entries \<^verbatim>\<open>fasta\<close>, \<^verbatim>\<open>chromsizes\<close> and
  \<^verbatim>\<open>bowtie2\<close> of \<^verbatim>\<open>dm6\<close>, \<^verbatim>\<open>r6-11\<close> are the three paths of the claim, the last one ending
  in the bowtie2 index suffix.
\<close>

theorem example_config_table:
  "\<exists>d. config_to_dict al None example_config = Inr d
     \<and> table_entry d ''dm6'' ''r6-11'' ''fasta'' = Some ''/data/dm6/fasta/dm6_r6-11.fasta''
     \<and> table_entry d ''dm6'' ''r6-11'' ''chromsizes''
         = Some ''/data/dm6/fasta/dm6_r6-11.chromsizes''
     \<and> table_entry d ''dm6'' ''r6-11'' ''bowtie2''
         = Some (''/data/dm6/bowtie2/dm6_r6-11'' @ bowtie2_index_from_prefix al)"
  by (simp add: config_to_dict_unfold example_config_def example_block_def plain_block_def)

theorem example_config_table_witness:
  "\<exists>d. config_to_dict doctest_aligners None example_config = Inr d
     \<and> table_entry d ''dm6'' ''r6-11'' ''fasta'' = Some ''/data/dm6/fasta/dm6_r6-11.fasta''
     \<and> table_entry d ''dm6'' ''r6-11'' ''chromsizes''
         = Some ''/data/dm6/fasta/dm6_r6-11.chromsizes''
     \<and> table_entry d ''dm6'' ''r6-11'' ''bowtie2'' = Some ''/data/dm6/bowtie2/dm6_r6-11.1.bt2''"
  using example_config_table [of doctest_aligners]
  by (simp add: doctest_aligners_def)

text \<open>
  C7. When \<^verbatim>\<open>config_to_dict\<close> returns a table, every block of the references list whose
  type is \<^verbatim>\<open>fasta\<close> has, in the cell of its assembly and fill-in tag, the entry
  \<^verbatim>\<open>chromsizes\<close> with the path \<^verbatim>\<open>{references_dir}/{assembly}/fasta/{assembly}_{tag}.chromsizes\<close>,
  whatever its \<^verbatim>\<open>indexes\<close> field is (absent, empty or not), and whatever blocks come after it.
\<close>

theorem fasta_chromsizes:
  assumes "config_to_dict al environ cfg = Inr d" "references cfg = Some blocks"
    "get_references_dir environ cfg = Some rd"
    "b \<in> set blocks" "type b = Some ''fasta''" "assembly b = Some a"
  shows "table_entry d a (fill_tag b) ''chromsizes''
           = Some (rd @ ''/'' @ a @ ''/fasta/'' @ a @ ''_'' @ fill_tag b @ ''.chromsizes'')"
proof -
  from assms(1,2,3) have "process_blocks al rd blocks Map.empty = Inr d"
    by (simp add: config_to_dict_def)
  from process_blocks_chromsizes [OF this assms(4,6,5)] show ?thesis
    by (simp add: chromsizes_path_def)
qed

theorem fasta_chromsizes_witness:
  "(\<exists>d. config_to_dict doctest_aligners None unused_fields_config = Inr d)
   \<and> indexes (plain_block ''hg38'' ''fasta'') = None
   \<and> table_entry (projr (config_to_dict doctest_aligners None unused_fields_config))
        ''hg38'' ''default'' ''chromsizes'' = Some ''/data/hg38/fasta/hg38_default.chromsizes''"
  using fasta_chromsizes [of doctest_aligners None unused_fields_config
      "projr (config_to_dict doctest_aligners None unused_fields_config)"
      "the (references unused_fields_config)" "''/data''"
      "(plain_block ''hg38'' ''fasta'')\<lparr>conversions := Some [''bed12'']\<rparr>" "''hg38''"]
  by (simp add: unused_fields_config_def plain_block_def config_to_dict_unfold)

text \<open>
  C8. In a call that has found its block, with a url: when the block has no
  \<^verbatim>\<open>postprocess\<close> key, the function called is the default one, which moves the temporary
  file to \<^verbatim>\<open>outfile\<close>, with no extra argument; when the value is a string, it is the function
  that \<^verbatim>\<open>resolve_name\<close> gives for that string, with no extra argument; when the value is a
  dictionary with a \<^verbatim>\<open>function\<close> entry, it is the function that \<^verbatim>\<open>resolve_name\<close> gives for
  that entry, and the extra arguments are the \<^verbatim>\<open>args\<close> entry: none when it is absent, the
  one string when it is a string, the elements in order when it is a list.
\<close>

theorem postprocess_normalized:
  assumes "references cfg = Some blocks" "build_lookup blocks Map.empty = Inr d"
    "references_dir cfg = Some rd" "outfile \<noteq> []" "d (a, t) = Some b" "url b = Some u"
  shows "(postprocess b = None \<longrightarrow>
            download_and_postprocess env outfile cfg a t w
              = download_and_call env outfile DefaultPostprocess [] u w)
    \<and> (\<forall>s f. postprocess b = Some (PostStr s) \<and> resolve_name env (NameStr s) = Inr f \<longrightarrow>
            download_and_postprocess env outfile cfg a t w
              = download_and_call env outfile (Resolved f) [] u w)
    \<and> (\<forall>m s f. postprocess b = Some (PostDict m) \<and> pp_function m = Some s
                 \<and> resolve_name env (NameStr s) = Inr f \<longrightarrow>
            download_and_postprocess env outfile cfg a t w
              = download_and_call env outfile (Resolved f)
                  (case pp_args m of None \<Rightarrow> [] | Some (ArgsStr x) \<Rightarrow> [x] | Some (ArgsList xs) \<Rightarrow> xs)
                  u w)
    \<and> (\<forall>tmpfiles w'. call_func DefaultPostprocess tmpfiles outfile [] w'
                        = shell_mv tmpfiles outfile w')"
proof -
  note reach = download_and_postprocess_reaches [OF assms(1-5), of env w]
  have none: "download_and_postprocess env outfile cfg a t w
                = download_and_call env outfile DefaultPostprocess [] u w"
    if "postprocess b = None"
    using that assms(6) unfolding reach by (simp add: select_postprocess_def)
  have str: "download_and_postprocess env outfile cfg a t w
               = download_and_call env outfile (Resolved f) [] u w"
    if "postprocess b = Some (PostStr s)" "resolve_name env (NameStr s) = Inr f" for s f
    using that assms(6) unfolding reach
    by (simp add: select_postprocess_def normalize_postprocess_def)
  have dict: "download_and_postprocess env outfile cfg a t w
                = download_and_call env outfile (Resolved f)
                    (case pp_args m of None \<Rightarrow> [] | Some (ArgsStr x) \<Rightarrow> [x] | Some (ArgsList xs) \<Rightarrow> xs)
                    u w"
    if "postprocess b = Some (PostDict m)" "pp_function m = Some s"
      "resolve_name env (NameStr s) = Inr f" for m s f
    using that assms(6) unfolding reach
    by (simp add: select_postprocess_def normalize_postprocess_def normalize_args_def)
  have mv: "call_func DefaultPostprocess tmpfiles outfile [] w' = shell_mv tmpfiles outfile w'"
    for tmpfiles w'
    by (simp add: default_postprocess_def)
  from none str dict mv show ?thesis by blast
qed

theorem postprocess_normalized_witness:
  "download_and_postprocess example_collaborators ''out''
       (download_config (UrlStr ''http://host/a.fa.gz'') (Some cat_with_argument))
       ''dm6'' ''default'' {}
     = download_and_call example_collaborators ''out'' (Resolved cat_fn) [''x'']
         (UrlStr ''http://host/a.fa.gz'') {}
   \<and> download_and_postprocess example_collaborators ''out''
       (download_config (UrlStr ''http://host/a.fa.gz'') None) ''dm6'' ''default'' {}
     = download_and_call example_collaborators ''out'' DefaultPostprocess []
         (UrlStr ''http://host/a.fa.gz'') {}
   \<and> call_func DefaultPostprocess [''out.0.tmp''] ''out'' [] {''out.0.tmp'', ''out.log''}
     = Returns {''out'', ''out.log''}"
  using postprocess_normalized [of
      "download_config (UrlStr ''http://host/a.fa.gz'') (Some cat_with_argument)"
      "[download_block (UrlStr ''http://host/a.fa.gz'') (Some cat_with_argument)]"
      "[(''dm6'', ''default'') \<mapsto>
          download_block (UrlStr ''http://host/a.fa.gz'') (Some cat_with_argument)]"
      "''/data''" "''out''" "''dm6''" "''default''"
      "download_block (UrlStr ''http://host/a.fa.gz'') (Some cat_with_argument)"
      "UrlStr ''http://host/a.fa.gz''" example_collaborators "{}"]
    postprocess_normalized [of
      "download_config (UrlStr ''http://host/a.fa.gz'') None"
      "[download_block (UrlStr ''http://host/a.fa.gz'') None]"
      "[(''dm6'', ''default'') \<mapsto> download_block (UrlStr ''http://host/a.fa.gz'') None]"
      "''/data''" "''out''" "''dm6''" "''default''"
      "download_block (UrlStr ''http://host/a.fa.gz'') None"
      "UrlStr ''http://host/a.fa.gz''" example_collaborators "{}"]
  by (simp add: download_unfold)

text \<open>
  C9. When the \<^verbatim>\<open>postprocess\<close> value of the block is a dictionary without a \<^verbatim>\<open>function\<close>
  key, the name given to \<^verbatim>\<open>resolve_name\<close> is the dictionary itself; what happens next is
  what \<^verbatim>\<open>resolve_name\<close> does with it, and when it fails the call raises that error of the
  resolution, with the file system untouched. No error about the missing key is raised by
  \<^verbatim>\<open>download_and_postprocess\<close> itself.
\<close>

theorem postprocess_without_function:
  assumes "references cfg = Some blocks" "build_lookup blocks Map.empty = Inr d"
    "references_dir cfg = Some rd" "outfile \<noteq> []" "d (a, t) = Some b"
    "postprocess b = Some (PostDict m)" "pp_function m = None"
  shows "select_postprocess env b =
           (case resolve_name env (NameDict m) of
              Inl err \<Rightarrow> Inl err
            | Inr f \<Rightarrow> Inr (Resolved f, normalize_args (pp_args m)))
    \<and> (\<forall>err. resolve_name env (NameDict m) = Inl err \<longrightarrow>
           download_and_postprocess env outfile cfg a t w = Raises err w)"
proof -
  have sel: "select_postprocess env b =
           (case resolve_name env (NameDict m) of
              Inl err \<Rightarrow> Inl err
            | Inr f \<Rightarrow> Inr (Resolved f, normalize_args (pp_args m)))"
    using assms(6,7) by (simp add: select_postprocess_def normalize_postprocess_def)
  have "download_and_postprocess env outfile cfg a t w = Raises err w"
    if "resolve_name env (NameDict m) = Inl err" for err
    using that unfolding download_and_postprocess_reaches [OF assms(1-5)] sel by simp
  with sel show ?thesis by blast
qed

theorem postprocess_without_function_witness:
  "download_and_postprocess example_collaborators ''out''
       (download_config (UrlStr ''http://host/a.fa.gz'')
          (Some (PostDict \<lparr>pp_function = None, pp_args = Some (ArgsStr ''x'')\<rparr>)))
       ''dm6'' ''default'' {}
     = Raises (Exception ''AttributeError'') {}"
  using postprocess_without_function [of
      "download_config (UrlStr ''http://host/a.fa.gz'')
          (Some (PostDict \<lparr>pp_function = None, pp_args = Some (ArgsStr ''x'')\<rparr>))"
      "[download_block (UrlStr ''http://host/a.fa.gz'')
          (Some (PostDict \<lparr>pp_function = None, pp_args = Some (ArgsStr ''x'')\<rparr>))]"
      "[(''dm6'', ''default'') \<mapsto> download_block (UrlStr ''http://host/a.fa.gz'')
          (Some (PostDict \<lparr>pp_function = None, pp_args = Some (ArgsStr ''x'')\<rparr>))]"
      "''/data''" "''out''" "''dm6''" "''default''"
      "download_block (UrlStr ''http://host/a.fa.gz'')
          (Some (PostDict \<lparr>pp_function = None, pp_args = Some (ArgsStr ''x'')\<rparr>))"
      "\<lparr>pp_function = None, pp_args = Some (ArgsStr ''x'')\<rparr>" example_collaborators "{}"]
  by (simp add: download_config_def download_block_def plain_block_def fill_tag_def
      example_collaborators_def example_resolve_name_def)

text \<open>
  C10. \<^verbatim>\<open>config_to_dict\<close> gives the same result, table or error, on a configuration and on
  the configuration whose blocks have lost their \<^verbatim>\<open>conversions\<close> unless their type is
  \<^verbatim>\<open>gtf\<close> and their \<^verbatim>\<open>indexes\<close> unless their type is \<^verbatim>\<open>fasta\<close>: these fields add no
  entry and raise no error, whatever kinds they name.
\<close>

theorem unused_fields_ignored:
  "config_to_dict al environ (cfg\<lparr>references := map_option (map drop_unused) (references cfg)\<rparr>)
     = config_to_dict al environ cfg"
  by (cases "get_references_dir environ cfg"; cases "references cfg")
    (simp_all add: config_to_dict_def process_blocks_drop_unused)

theorem unused_fields_ignored_witness:
  "index_extensions doctest_aligners ''star'' = None \<and> conversion_extensions ''bed12'' = None
   \<and> config_to_dict doctest_aligners None unused_fields_config
       = config_to_dict doctest_aligners None
           \<lparr>references_dir = Some ''/data'',
            references = Some [plain_block ''dm6'' ''gtf'', plain_block ''hg38'' ''fasta'',
                               (plain_block ''hg38'' ''rRNA'')\<lparr>tag := Some ''v2''\<rparr>]\<rparr>
   \<and> (\<exists>d. config_to_dict doctest_aligners None unused_fields_config = Inr d
          \<and> table_entry d ''dm6'' ''default'' ''star'' = None
          \<and> table_entry d ''hg38'' ''default'' ''bed12'' = None
          \<and> table_entry d ''hg38'' ''v2'' ''star'' = None
          \<and> table_entry d ''hg38'' ''v2'' ''bed12'' = None
          \<and> table_entry d ''hg38'' ''v2'' ''rRNA'' = Some ''/data/hg38/rRNA/hg38_v2.rRNA'')"
  using unused_fields_ignored [of doctest_aligners None unused_fields_config]
  by (simp add: unused_fields_config_def plain_block_def drop_unused_def config_to_dict_unfold)

end
